theory Spec2Isabelle
  imports Main "HOL-Library.Char_ord" "HOL-Library.List_Lexorder" "HOL-Library.Product_Lexorder"
    "HOL-Library.Multiset"
begin

section \<open>Values of the reservation backend\<close>

text \<open>
  Identifiers are UUIDs in the source; the model draws them from a counter of the
  database state, so a fresh identifier differs from every earlier one.
  A \<open>date\<close> is the proleptic Gregorian ordinal Python's \<open>date.toordinal()\<close> gives.
  A \<open>time_of_day\<close> is the number of microseconds since midnight, the resolution of
  both Python's \<open>datetime.time\<close> and PostgreSQL's \<open>TIME\<close>; a value of either type
  lies in \<open>0 \<le> t < usec_per_day\<close>. Python's integers are unbounded; the INSERTs of a
  booking refuse a value that does not fit its column.
\<close>

type_synonym uuid = nat
type_synonym date = int
type_synonym time_of_day = int

datatype detail =
    Outside_operating_hours
  | Updated_outside_operating_hours
  | Table_not_available uuid
  | Reservation_not_found
  | Table_not_found
  | Invalid_status

datatype error =
    OverflowError
  | AttributeError
  | TypeError
  | ValueError
  | UniqueViolationError
  | ForeignKeyViolationError
  | DataError
  | CharacterNotInRepertoireError
  | StringDataRightTruncationError
  | HTTPException nat detail

definition usec_per_minute :: int where
  "usec_per_minute = 60000000"

definition usec_per_day :: int where
  "usec_per_day = 86400000000"

text \<open>\<open>datetime.max.toordinal()\<close>: the last day a Python \<open>datetime\<close> can hold.\<close>

definition datetime_max_ordinal :: int where
  "datetime_max_ordinal = 3652059"

text \<open>\<open>time(h, m)\<close>, used to write examples.\<close>

definition hm :: "int \<Rightarrow> int \<Rightarrow> time_of_day" where
  "hm h m = (h * 60 + m) * usec_per_minute"

text \<open>
  \<^verbatim>\<open>end_time_dt = datetime.combine(datetime.min, start_time) + timedelta(minutes=duration_minutes)\<close>
  \<^verbatim>\<open>end_time = end_time_dt.time()\<close>
  The sum is a \<open>datetime\<close> counted from 0001-01-01; Python raises OverflowError when it
  leaves the range of \<open>datetime\<close>, and \<open>.time()\<close> drops the day, so the end time wraps
  at midnight.
\<close>

definition end_time :: "time_of_day \<Rightarrow> int \<Rightarrow> error + time_of_day" where
  "end_time start_time duration_minutes =
     (let total = start_time + duration_minutes * usec_per_minute
      in if total < 0 \<or> datetime_max_ordinal * usec_per_day \<le> total
         then Inl OverflowError
         else Inr (total mod usec_per_day))"

text \<open>\<open>date.weekday()\<close>: Monday is 0, Sunday is 6.\<close>

definition weekday :: "date \<Rightarrow> int" where
  "weekday d = (d + 6) mod 7"

section \<open>Rows and the database state\<close>

text \<open>
  The columns follow the schema the test fixture creates. Each relation is the list of
  its rows, a new row at the end. PostgreSQL fixes no order for the rows of a SELECT
  without ORDER BY: where what the code does depends on that order, for the chairs of
  a table, the order is a parameter of the model; elsewhere the rows are read in list
  order. Of the timestamp columns only \<open>created_at\<close> of a chair is kept, as the value
  of the identifier counter when the chair was inserted.
\<close>

record table_row =
  t_id :: uuid
  t_table_number :: string
  t_min_capacity :: int
  t_max_capacity :: int
  t_is_shared :: bool
  t_location :: "string option"

record chair_row =
  ch_id :: uuid
  ch_table_id :: uuid
  ch_is_assigned :: bool
  ch_created_at :: nat

record customer_row =
  c_id :: uuid
  c_name :: string
  c_email :: "string option"
  c_phone :: "string option"
  c_notes :: "string option"

record reservation_row =
  r_id :: uuid
  r_customer_id :: uuid
  r_party_size :: int
  r_reservation_date :: date
  r_start_time :: time_of_day
  r_duration_minutes :: int
  r_notes :: "string option"
  r_status :: string

record assignment_row =
  ta_reservation_id :: uuid
  ta_table_id :: uuid

record hours_row =
  h_day_of_week :: int
  h_open_time :: time_of_day
  h_close_time :: time_of_day
  h_last_reservation_time :: time_of_day

text \<open>
  Modelled from the spec: the \<open>special_hours\<close> relation, which the fixture's schema does
  not create. One row per calendar date, either closed or with its own triple of
  times; the three times are nullable, as \<open>set_special_hours\<close> stores None for a
  closed day.
\<close>

record special_hours_row =
  s_date :: date
  s_is_closed :: bool
  s_open_time :: "time_of_day option"
  s_close_time :: "time_of_day option"
  s_last_reservation_time :: "time_of_day option"

record database =
  tables :: "table_row list"
  chairs :: "chair_row list"
  customers :: "customer_row list"
  reservations :: "reservation_row list"
  table_assignments :: "assignment_row list"
  restaurant_hours :: "hours_row list"
  special_hours :: "special_hours_row list"
  next_uuid :: uuid

definition empty_database :: database where
  "empty_database =
     \<lparr>tables = [], chairs = [], customers = [], reservations = [],
      table_assignments = [], restaurant_hours = [], special_hours = [], next_uuid = 1\<rparr>"

text \<open>
  What a column accepts. An INTEGER holds 32 bits. No text value may hold the NUL
  character. \<open>VARCHAR(n)\<close> takes a longer string only when every character past the
  \<open>n\<close>-th is a space, and then stores the first \<open>n\<close> characters.
\<close>

definition int32 :: "int \<Rightarrow> bool" where
  "int32 n \<longleftrightarrow> - 2147483648 \<le> n \<and> n \<le> 2147483647"

definition has_nul :: "string \<Rightarrow> bool" where
  "has_nul s \<longleftrightarrow> CHR 0x00 \<in> set s"

definition opt_has_nul :: "string option \<Rightarrow> bool" where
  "opt_has_nul v = (case v of None \<Rightarrow> False | Some s \<Rightarrow> has_nul s)"

definition fits_varchar :: "nat \<Rightarrow> string \<Rightarrow> bool" where
  "fits_varchar n s \<longleftrightarrow> list_all (\<lambda>c. c = CHR 0x20) (drop n s)"

definition opt_fits_varchar :: "nat \<Rightarrow> string option \<Rightarrow> bool" where
  "opt_fits_varchar n v = (case v of None \<Rightarrow> True | Some s \<Rightarrow> fits_varchar n s)"

section \<open>The time-window overlap test\<close>

text \<open>
  \<^verbatim>\<open>r.start_time + make_interval(mins => r.duration_minutes)\<close>: PostgreSQL adds an
  interval to a \<open>TIME\<close> modulo 24 hours.
\<close>

definition r_end_time :: "reservation_row \<Rightarrow> time_of_day" where
  "r_end_time r = (r_start_time r + r_duration_minutes r * usec_per_minute) mod usec_per_day"

text \<open>
  The disjunction both subqueries of \<open>get_available_tables\<close> use, with \<open>$2\<close> the
  requested start and \<open>$3\<close> the requested end.
\<close>

definition overlapping_time_ranges ::
  "time_of_day \<Rightarrow> time_of_day \<Rightarrow> time_of_day \<Rightarrow> time_of_day \<Rightarrow> bool" where
  "overlapping_time_ranges r_start r_end req_start req_end \<longleftrightarrow>
     (r_start \<le> req_start \<and> r_end > req_start)
   \<or> (r_start < req_end \<and> r_end \<ge> req_end)
   \<or> (req_start \<le> r_start \<and> req_end \<ge> r_end)"

text \<open>The two-clause overlap of half-open intervals, as the specification words it.\<close>

definition half_open_overlap ::
  "time_of_day \<Rightarrow> time_of_day \<Rightarrow> time_of_day \<Rightarrow> time_of_day \<Rightarrow> bool" where
  "half_open_overlap a_start a_end b_start b_end \<longleftrightarrow> a_start < b_end \<and> b_start < a_end"

section \<open>Operating hours\<close>

text \<open>Python's \<open>a < b\<close> and \<open>a > b\<close> on times raise TypeError when \<open>b\<close> is None.\<close>

definition time_lt :: "time_of_day \<Rightarrow> time_of_day option \<Rightarrow> error + bool" where
  "time_lt a b = (case b of None \<Rightarrow> Inl TypeError | Some b' \<Rightarrow> Inr (a < b'))"

definition time_gt :: "time_of_day \<Rightarrow> time_of_day option \<Rightarrow> error + bool" where
  "time_gt a b = (case b of None \<Rightarrow> Inl TypeError | Some b' \<Rightarrow> Inr (a > b'))"

definition is_valid_reservation_time ::
  "database \<Rightarrow> date \<Rightarrow> time_of_day \<Rightarrow> int \<Rightarrow> error + bool" where
  "is_valid_reservation_time db reservation_date start_time duration_minutes =
     (case end_time start_time duration_minutes of
        Inl e \<Rightarrow> Inl e
      | Inr end_t \<Rightarrow>
          (case find (\<lambda>s. s_date s = reservation_date) (special_hours db) of
             Some special_day \<Rightarrow>
               if s_is_closed special_day then Inr False
               else (case time_lt start_time (s_open_time special_day) of
                       Inl e \<Rightarrow> Inl e
                     | Inr True \<Rightarrow> Inr False
                     | Inr False \<Rightarrow>
                         (case time_gt start_time (s_last_reservation_time special_day) of
                            Inl e \<Rightarrow> Inl e
                          | Inr True \<Rightarrow> Inr False
                          | Inr False \<Rightarrow>
                              (case time_gt end_t (s_close_time special_day) of
                                 Inl e \<Rightarrow> Inl e
                               | Inr True \<Rightarrow> Inr False
                               | Inr False \<Rightarrow> Inr True)))
           | None \<Rightarrow>
               (case find (\<lambda>h. h_day_of_week h = weekday reservation_date)
                       (restaurant_hours db) of
                  None \<Rightarrow> Inr False
                | Some hours \<Rightarrow>
                    if start_time < h_open_time hours then Inr False
                    else if start_time > h_last_reservation_time hours then Inr False
                    else if end_t > h_close_time hours then Inr False
                    else Inr True)))"

text \<open>
  The resolver and the validity rule as the specification words them: the special row
  of the date when there is one, the weekly row of the weekday otherwise, and the end
  of the window is the start plus the duration.
\<close>

definition resolve :: "database \<Rightarrow> date \<Rightarrow> (time_of_day \<times> time_of_day \<times> time_of_day) option" where
  "resolve db d =
     (case find (\<lambda>s. s_date s = d) (special_hours db) of
        Some sp \<Rightarrow>
          if s_is_closed sp then None
          else (case (s_open_time sp, s_close_time sp, s_last_reservation_time sp) of
                  (Some opn, Some cls, Some lst) \<Rightarrow> Some (opn, cls, lst)
                | _ \<Rightarrow> None)
      | None \<Rightarrow>
          (case find (\<lambda>h. h_day_of_week h = weekday d) (restaurant_hours db) of
             None \<Rightarrow> None
           | Some h \<Rightarrow> Some (h_open_time h, h_close_time h, h_last_reservation_time h)))"

definition window_within_hours :: "database \<Rightarrow> date \<Rightarrow> time_of_day \<Rightarrow> int \<Rightarrow> bool" where
  "window_within_hours db d start_time duration_minutes =
     (case resolve db d of
        None \<Rightarrow> False
      | Some (opn, cls, lst) \<Rightarrow>
          start_time \<ge> opn \<and> start_time \<le> lst
          \<and> start_time + duration_minutes * usec_per_minute \<le> cls)"

text \<open>A special row that is not closed carries its three times.\<close>

definition special_row_ok :: "special_hours_row \<Rightarrow> bool" where
  "special_row_ok sp =
     (s_is_closed sp \<or>
      (s_open_time sp \<noteq> None \<and> s_close_time sp \<noteq> None \<and> s_last_reservation_time sp \<noteq> None))"

text \<open>
  An evening schedule for every weekday: open 17:00, last reservation 22:30,
  close 23:30.
\<close>

definition evening_hours :: "hours_row list" where
  "evening_hours =
     map (\<lambda>d. \<lparr>h_day_of_week = d, h_open_time = hm 17 0, h_close_time = hm 23 30,
               h_last_reservation_time = hm 22 30\<rparr>) [0, 1, 2, 3, 4, 5, 6]"

definition evening_db :: database where
  "evening_db = empty_database\<lparr>restaurant_hours := evening_hours\<rparr>"

section \<open>The availability query\<close>

text \<open>\<^verbatim>\<open>r.status NOT IN ('cancelled', 'no_show')\<close>\<close>

definition active_status :: "string \<Rightarrow> bool" where
  "active_status s \<longleftrightarrow> s \<notin> set [''cancelled'', ''no_show'']"

text \<open>
  The subquery both halves of the statement share: reservations joined with their
  table assignments, on the requested date, with a blocking status, overlapping the
  requested window. Each row carries the table and the party size.
\<close>

definition overlapping_reservations ::
  "database \<Rightarrow> date \<Rightarrow> time_of_day \<Rightarrow> time_of_day \<Rightarrow> (uuid \<times> int) list" where
  "overlapping_reservations db d req_start req_end =
     [(ta_table_id ta, r_party_size r).
        r \<leftarrow> reservations db, ta \<leftarrow> table_assignments db,
        r_id r = ta_reservation_id ta,
        r_reservation_date r = d,
        active_status (r_status r),
        overlapping_time_ranges (r_start_time r) (r_end_time r) req_start req_end]"

text \<open>The common table expression \<open>booked_tables\<close>: \<^verbatim>\<open>SELECT DISTINCT ta.table_id\<close>.\<close>

definition booked_tables ::
  "database \<Rightarrow> date \<Rightarrow> time_of_day \<Rightarrow> time_of_day \<Rightarrow> uuid list" where
  "booked_tables db d req_start req_end =
     remdups (map fst (overlapping_reservations db d req_start req_end))"

text \<open>A row of the result: the columns of the table and the two computed columns.\<close>

record available_table = table_row +
  can_be_shared :: bool
  remaining_capacity :: int

text \<open>
  \<^verbatim>\<open>COALESCE(SUM(r.party_size), 0)\<close> over the rows the LEFT JOIN attaches to a table:
  \<^verbatim>\<open>ON t.id = r.table_id AND t.is_shared = true\<close>.
\<close>

definition sum_party_size :: "(uuid \<times> int) list \<Rightarrow> table_row \<Rightarrow> int" where
  "sum_party_size rows t =
     sum_list [p. (tid, p) \<leftarrow> rows, t_id t = tid \<and> t_is_shared t = True]"

text \<open>
  The statement of \<open>get_available_tables\<close>: the WHERE clause, the HAVING clause on the
  group of each table (\<open>t.id\<close> is the primary key, so a group is one table), and
  \<^verbatim>\<open>ORDER BY ABS(t.min_capacity - $4), t.table_number\<close>. Table numbers are text and
  compare by code point.
\<close>

definition get_available_tables ::
  "database \<Rightarrow> int \<Rightarrow> date \<Rightarrow> time_of_day \<Rightarrow> int \<Rightarrow> error + available_table list" where
  "get_available_tables db party_size reservation_date start_time duration_minutes =
     (case end_time start_time duration_minutes of
        Inl e \<Rightarrow> Inl e
      | Inr end_t \<Rightarrow>
          (let rows = overlapping_reservations db reservation_date start_time end_t;
               booked = booked_tables db reservation_date start_time end_t
           in Inr (sort_key (\<lambda>a. (\<bar>t_min_capacity a - party_size\<bar>, t_table_number a))
                 (map (\<lambda>t. table_row.extend t
                          (available_table.fields
                             (t_is_shared t \<and> t_max_capacity t - sum_party_size rows t \<ge> party_size)
                             (t_max_capacity t - sum_party_size rows t)))
                    (filter (\<lambda>t. (t_id t \<notin> set booked \<or> t_is_shared t = True)
                                  \<and> t_min_capacity t \<le> party_size \<and> t_max_capacity t \<ge> party_size
                                  \<and> (t_is_shared t = False
                                     \<or> t_max_capacity t - sum_party_size rows t \<ge> party_size))
                       (tables db))))))"

text \<open>
  The words of the specification: the reservations assigned to a table that count
  against a requested window.
\<close>

definition assigned_to :: "database \<Rightarrow> reservation_row \<Rightarrow> table_row \<Rightarrow> bool" where
  "assigned_to db r t =
     list_ex (\<lambda>ta. ta_reservation_id ta = r_id r \<and> ta_table_id ta = t_id t) (table_assignments db)"

definition blocking_reservations ::
  "database \<Rightarrow> table_row \<Rightarrow> date \<Rightarrow> time_of_day \<Rightarrow> time_of_day \<Rightarrow> reservation_row list" where
  "blocking_reservations db t d req_start req_end =
     filter (\<lambda>r. assigned_to db r t \<and> r_reservation_date r = d \<and> active_status (r_status r)
                 \<and> overlapping_time_ranges (r_start_time r) (r_end_time r) req_start req_end)
       (reservations db)"

text \<open>The schema's \<^verbatim>\<open>UNIQUE(reservation_id, table_id)\<close> on table assignments.\<close>

definition assignments_unique :: "database \<Rightarrow> bool" where
  "assignments_unique db =
     distinct (map (\<lambda>ta. (ta_reservation_id ta, ta_table_id ta)) (table_assignments db))"

text \<open>
  The words of claim C1, apart from the query. A window lies within its day when it
  starts at or after midnight, has a positive duration and ends before the next
  midnight. The reservations that compete for a table in a requested window are those
  of the date that hold the table, are neither cancelled nor no_show, and whose window
  from the start time to the start time plus the duration overlaps the window from
  the requested start to the requested start plus the requested duration.
\<close>

definition same_day_window :: "time_of_day \<Rightarrow> int \<Rightarrow> bool" where
  "same_day_window start minutes \<longleftrightarrow>
     0 \<le> start \<and> 0 < minutes \<and> start + minutes * usec_per_minute < usec_per_day"

definition competing_reservations ::
  "database \<Rightarrow> table_row \<Rightarrow> date \<Rightarrow> time_of_day \<Rightarrow> int \<Rightarrow> reservation_row list" where
  "competing_reservations db t d start minutes =
     filter (\<lambda>r. list_ex (\<lambda>ta. ta_reservation_id ta = r_id r \<and> ta_table_id ta = t_id t)
                   (table_assignments db)
                 \<and> r_reservation_date r = d
                 \<and> r_status r \<noteq> ''cancelled'' \<and> r_status r \<noteq> ''no_show''
                 \<and> half_open_overlap
                       (r_start_time r) (r_start_time r + r_duration_minutes r * usec_per_minute)
                       start (start + minutes * usec_per_minute))
       (reservations db)"

text \<open>
  The scenario of the specification: an exclusive table for 2 to 4 and a shared table
  for 2 to 8, each holding a party of three from 18:00 for 90 minutes.
\<close>

definition table_a :: table_row where
  "table_a = \<lparr>t_id = 1, t_table_number = ''T1'', t_min_capacity = 2, t_max_capacity = 4,
              t_is_shared = False, t_location = None\<rparr>"

definition table_b :: table_row where
  "table_b = \<lparr>t_id = 2, t_table_number = ''T2'', t_min_capacity = 2, t_max_capacity = 8,
              t_is_shared = True, t_location = None\<rparr>"

definition guest :: customer_row where
  "guest = \<lparr>c_id = 5, c_name = ''Test Customer'', c_email = Some ''test@example.com'',
            c_phone = None, c_notes = None\<rparr>"

definition party_of_three :: "uuid \<Rightarrow> reservation_row" where
  "party_of_three rid =
     \<lparr>r_id = rid, r_customer_id = 5, r_party_size = 3, r_reservation_date = 739000,
      r_start_time = hm 18 0, r_duration_minutes = 90, r_notes = None, r_status = ''pending''\<rparr>"

definition scenario_db :: database where
  "scenario_db =
     \<lparr>tables = [table_a, table_b], chairs = [], customers = [guest],
      reservations = [party_of_three 10, party_of_three 11],
      table_assignments = [\<lparr>ta_reservation_id = 10, ta_table_id = 1\<rparr>,
                           \<lparr>ta_reservation_id = 11, ta_table_id = 2\<rparr>],
      restaurant_hours = evening_hours, special_hours = [], next_uuid = 100\<rparr>"

definition quiet_db :: database where
  "quiet_db = scenario_db\<lparr>reservations := [], table_assignments := []\<rparr>"

section \<open>Reading a reservation\<close>

text \<open>
  What \<open>get_reservation_by_id\<close> returns: the reservation row, the columns of its
  customer, and the tables assigned to it.
\<close>

record reservation_view =
  rv_reservation :: reservation_row
  rv_customer :: customer_row
  rv_tables :: "table_row list"

text \<open>
  The values the parameter \<open>conn\<close> of \<open>get_reservation_by_id\<close> takes: None, a live
  connection, and the object \<open>typing.Optional[Connection]\<close>. The signature reads
  \<^verbatim>\<open>conn=Optional[Connection]\<close>, so the typing object is the default value of the
  parameter. It is not None, it is truthy, and it has no attribute \<open>fetchrow\<close>.
\<close>

datatype conn_value = PyNone | Optional_Connection | Conn

definition default_conn :: conn_value where
  "default_conn = Optional_Connection"

definition truthy_conn :: "conn_value \<Rightarrow> bool" where
  "truthy_conn conn = (case conn of PyNone \<Rightarrow> False | Optional_Connection \<Rightarrow> True | Conn \<Rightarrow> True)"

text \<open>
  The two statements run on a live connection: the reservation joined with its
  customer (the first row, or None when there is none), then the assigned tables.
\<close>

definition fetch_reservation :: "database \<Rightarrow> uuid \<Rightarrow> reservation_view option" where
  "fetch_reservation db reservation_id =
     (case [(r, c). r \<leftarrow> reservations db, c \<leftarrow> customers db,
                    r_customer_id r = c_id c, r_id r = reservation_id] of
        [] \<Rightarrow> None
      | (r, c) # _ \<Rightarrow>
          Some \<lparr>rv_reservation = r, rv_customer = c,
                rv_tables = [t. t \<leftarrow> tables db, ta \<leftarrow> table_assignments db,
                                t_id t = ta_table_id ta, ta_reservation_id ta = reservation_id]\<rparr>)"

text \<open>
  The outcome of a call records, beside what the call returns or raises, whether it
  acquired a connection from the pool and whether its \<open>finally\<close> block closed the
  connection.
\<close>

record lookup_outcome =
  returned :: "error + reservation_view option"
  pool_acquired :: bool
  conn_closed :: bool

definition get_reservation_by_id :: "database \<Rightarrow> uuid \<Rightarrow> conn_value \<Rightarrow> lookup_outcome" where
  "get_reservation_by_id db reservation_id conn =
     (let use_provided_conn = (conn \<noteq> PyNone);
          acquire = (\<not> truthy_conn conn);
          conn' = (if truthy_conn conn then conn else Conn)
      in \<lparr>returned = (case conn' of
                        Conn \<Rightarrow> Inr (fetch_reservation db reservation_id)
                      | _ \<Rightarrow> Inl AttributeError),
          pool_acquired = acquire,
          conn_closed = (\<not> use_provided_conn)\<rparr>)"

text \<open>
  \<open>update_reservation_status\<close> runs its UPDATE on a pool connection outside any
  transaction, so the new status stays when the lookup that follows raises.
\<close>

definition update_reservation_status ::
  "database \<Rightarrow> uuid \<Rightarrow> string \<Rightarrow> (error + reservation_view option) \<times> database" where
  "update_reservation_status db reservation_id status =
     (if list_ex (\<lambda>r. r_id r = reservation_id) (reservations db)
      then (let db' = db\<lparr>reservations :=
                          map (\<lambda>r. if r_id r = reservation_id then r\<lparr>r_status := status\<rparr> else r)
                            (reservations db)\<rparr>
            in (returned (get_reservation_by_id db' reservation_id default_conn), db'))
      else (Inr None, db))"

text \<open>The handlers of \<open>GET /reservations/{id}\<close> and \<open>PATCH /reservations/{id}/status\<close>.\<close>

definition main_get_reservation :: "database \<Rightarrow> uuid \<Rightarrow> error + reservation_view" where
  "main_get_reservation db reservation_id =
     (case returned (get_reservation_by_id db reservation_id default_conn) of
        Inl e \<Rightarrow> Inl e
      | Inr None \<Rightarrow> Inl (HTTPException 404 Reservation_not_found)
      | Inr (Some reservation) \<Rightarrow> Inr reservation)"

definition valid_statuses :: "string list" where
  "valid_statuses = [''pending'', ''confirmed'', ''seated'', ''completed'', ''cancelled'', ''no_show'']"

definition main_update_reservation_status ::
  "database \<Rightarrow> uuid \<Rightarrow> string \<Rightarrow> (error + reservation_view) \<times> database" where
  "main_update_reservation_status db reservation_id status =
     (if status \<notin> set valid_statuses then (Inl (HTTPException 400 Invalid_status), db)
      else (case update_reservation_status db reservation_id status of
              (Inl e, db') \<Rightarrow> (Inl e, db')
            | (Inr None, db') \<Rightarrow> (Inl (HTTPException 404 Reservation_not_found), db')
            | (Inr (Some updated), db') \<Rightarrow> (Inr updated, db')))"

section \<open>Booking a reservation\<close>

text \<open>
  The two dictionaries the handler passes to \<open>Database.create_reservation\<close>:
  \<open>reservation.customer.dict()\<close> and the reservation without customer and table ids.
  Every key of the request model is present; an optional field that was not sent is
  None.
\<close>

record customer_data =
  cd_name :: string
  cd_email :: "string option"
  cd_phone :: "string option"
  cd_notes :: "string option"

record reservation_data =
  rd_party_size :: int
  rd_reservation_date :: date
  rd_start_time :: time_of_day
  rd_duration_minutes :: int
  rd_notes :: "string option"
  rd_status :: string

text \<open>Python's truth value of an optional string: None and the empty string are false.\<close>

definition truthy :: "string option \<Rightarrow> bool" where
  "truthy v = (case v of None \<Rightarrow> False | Some s \<Rightarrow> s \<noteq> [])"

text \<open>
  Strings are ASCII text, one \<open>char\<close> per character; text with characters beyond ASCII
  is outside the model. On ASCII text \<open>str.lower()\<close> maps the 26 capital letters to
  small ones and leaves every other character, and \<open>str.strip()\<close> removes from both
  ends the ten ASCII characters \<open>str.isspace()\<close> accepts; \<open>.encode()\<close> changes nothing.
\<close>

definition ascii_text :: "string \<Rightarrow> bool" where
  "ascii_text s \<longleftrightarrow> list_all (\<lambda>c. (of_char c :: nat) < 128) s"

definition lower_char :: "char \<Rightarrow> char" where
  "lower_char c =
     (case map_of (zip ''ABCDEFGHIJKLMNOPQRSTUVWXYZ'' ''abcdefghijklmnopqrstuvwxyz'') c of
        Some l \<Rightarrow> l
      | None \<Rightarrow> c)"

definition lower :: "string \<Rightarrow> string" where
  "lower s = map lower_char s"

definition is_space :: "char \<Rightarrow> bool" where
  "is_space c \<longleftrightarrow>
     c \<in> set [CHR 0x09, CHR 0x0A, CHR 0x0B, CHR 0x0C, CHR 0x0D,
               CHR 0x1C, CHR 0x1D, CHR 0x1E, CHR 0x1F, CHR 0x20]"

definition strip :: "string \<Rightarrow> string" where
  "strip s = rev (dropWhile is_space (rev (dropWhile is_space s)))"

text \<open>
  What lower-casing and trimming mean, in terms of character codes and apart from the
  two functions above: a character is ASCII whitespace when its code is 9 to 13 or 28
  to 32, and \<open>c'\<close> is the lower-case form of \<open>c\<close> when \<open>c\<close> is one of the capitals, codes
  65 to 90, and \<open>c'\<close> has the code 32 higher, or \<open>c\<close> is any other character and \<open>c'\<close> is
  \<open>c\<close>.
\<close>

definition ascii_whitespace :: "char \<Rightarrow> bool" where
  "ascii_whitespace c \<longleftrightarrow>
     (let n = of_char c :: nat in (9 \<le> n \<and> n \<le> 13) \<or> (28 \<le> n \<and> n \<le> 32))"

definition lowercase_of :: "char \<Rightarrow> char \<Rightarrow> bool" where
  "lowercase_of c c' \<longleftrightarrow>
     (let n = of_char c :: nat
      in if 65 \<le> n \<and> n \<le> 90 then of_char c' = n + 32 else c' = c)"

text \<open>
  \<^verbatim>\<open>name_hash = hashlib.md5(name.lower().strip().encode()).hexdigest()[:8]\<close>
  \<^verbatim>\<open>placeholder_email = f"guest-{name_hash}@restaurant.local"\<close>
  The digest function of \<open>hashlib\<close> is a parameter of the model.
\<close>

definition placeholder_email :: "(string \<Rightarrow> string) \<Rightarrow> string \<Rightarrow> string" where
  "placeholder_email md5_hexdigest name =
     ''guest-'' @ take 8 (md5_hexdigest (strip (lower name))) @ ''@restaurant.local''"

text \<open>The first step of \<open>Database.create_reservation\<close>: the placeholder contact.\<close>

definition resolve_contact :: "(string \<Rightarrow> string) \<Rightarrow> customer_data \<Rightarrow> int \<Rightarrow> customer_data" where
  "resolve_contact md5_hexdigest customer_data party_size =
     (let has_email = truthy (cd_email customer_data);
          has_phone = truthy (cd_phone customer_data)
      in if \<not> has_email \<and> \<not> has_phone \<and> party_size < 6
         then customer_data\<lparr>cd_email := Some (placeholder_email md5_hexdigest (cd_name customer_data))\<rparr>
         else customer_data)"

text \<open>The module-level helper of the same name; it returns the pair (email, phone).\<close>

definition generate_placeholder_contact ::
  "(string \<Rightarrow> string) \<Rightarrow> string \<Rightarrow> int \<Rightarrow> string option \<times> string option" where
  "generate_placeholder_contact md5_hexdigest name party_size =
     (if party_size < 6 then (Some (placeholder_email md5_hexdigest name), None)
      else (None, None))"

text \<open>
  Step 1 of the transaction: an existing customer by email, else by phone, else a new
  row. A SELECT fails when its parameter holds a NUL character.
\<close>

definition lookup_customer :: "database \<Rightarrow> customer_data \<Rightarrow> error + uuid option" where
  "lookup_customer db customer_data =
     (if truthy (cd_email customer_data) \<and> opt_has_nul (cd_email customer_data)
      then Inl CharacterNotInRepertoireError
      else (let by_email =
                  (if truthy (cd_email customer_data)
                   then map_option c_id
                          (find (\<lambda>c. c_email c = cd_email customer_data) (customers db))
                   else None)
            in if by_email = None \<and> truthy (cd_phone customer_data)
               then (if opt_has_nul (cd_phone customer_data)
                     then Inl CharacterNotInRepertoireError
                     else Inr (map_option c_id
                                 (find (\<lambda>c. c_phone c = cd_phone customer_data) (customers db))))
               else Inr by_email))"

text \<open>
  \<^verbatim>\<open>INSERT INTO customers (name, email, phone, notes) VALUES ($1, $2, $3, $4)\<close>
  The statement fails when a value holds a NUL character, or when \<open>name\<close>, \<open>email\<close> or
  \<open>phone\<close> does not fit its column.
\<close>

definition customer_values_error :: "customer_data \<Rightarrow> error option" where
  "customer_values_error customer_data =
     (if has_nul (cd_name customer_data) \<or> opt_has_nul (cd_email customer_data)
         \<or> opt_has_nul (cd_phone customer_data) \<or> opt_has_nul (cd_notes customer_data)
      then Some CharacterNotInRepertoireError
      else if \<not> (fits_varchar 200 (cd_name customer_data)
                 \<and> opt_fits_varchar 200 (cd_email customer_data)
                 \<and> opt_fits_varchar 50 (cd_phone customer_data))
      then Some StringDataRightTruncationError
      else None)"

definition new_customer_row :: "uuid \<Rightarrow> customer_data \<Rightarrow> customer_row" where
  "new_customer_row customer_id customer_data =
     \<lparr>c_id = customer_id,
      c_name = take 200 (cd_name customer_data),
      c_email = map_option (take 200) (cd_email customer_data),
      c_phone = map_option (take 50) (cd_phone customer_data),
      c_notes = cd_notes customer_data\<rparr>"

definition get_or_create_customer ::
  "database \<Rightarrow> customer_data \<Rightarrow> error + (uuid \<times> database)" where
  "get_or_create_customer db customer_data =
     (case lookup_customer db customer_data of
        Inl e \<Rightarrow> Inl e
      | Inr (Some customer_id) \<Rightarrow> Inr (customer_id, db)
      | Inr None \<Rightarrow>
          (case customer_values_error customer_data of
             Some e \<Rightarrow> Inl e
           | None \<Rightarrow>
               Inr (next_uuid db,
                    db\<lparr>customers := customers db @
                           [new_customer_row (next_uuid db) customer_data],
                       next_uuid := next_uuid db + 1\<rparr>)))"

text \<open>
  Step 2: the reservation row. asyncpg refuses an integer that does not fit the
  INTEGER column before it sends the statement; the server refuses a NUL character
  and a status that does not fit \<open>VARCHAR(20)\<close>.
\<close>

definition reservation_values_error :: "reservation_data \<Rightarrow> error option" where
  "reservation_values_error reservation_data =
     (if \<not> (int32 (rd_party_size reservation_data)
             \<and> int32 (rd_duration_minutes reservation_data))
      then Some DataError
      else if opt_has_nul (rd_notes reservation_data) \<or> has_nul (rd_status reservation_data)
      then Some CharacterNotInRepertoireError
      else if \<not> fits_varchar 20 (rd_status reservation_data)
      then Some StringDataRightTruncationError
      else None)"

definition new_reservation_row :: "uuid \<Rightarrow> uuid \<Rightarrow> reservation_data \<Rightarrow> reservation_row" where
  "new_reservation_row reservation_id customer_id reservation_data =
     \<lparr>r_id = reservation_id, r_customer_id = customer_id,
      r_party_size = rd_party_size reservation_data,
      r_reservation_date = rd_reservation_date reservation_data,
      r_start_time = rd_start_time reservation_data,
      r_duration_minutes = rd_duration_minutes reservation_data,
      r_notes = rd_notes reservation_data,
      r_status = take 20 (rd_status reservation_data)\<rparr>"

definition insert_reservation ::
  "database \<Rightarrow> uuid \<Rightarrow> reservation_data \<Rightarrow> error + (uuid \<times> database)" where
  "insert_reservation db customer_id reservation_data =
     (case reservation_values_error reservation_data of
        Some e \<Rightarrow> Inl e
      | None \<Rightarrow>
          Inr (next_uuid db,
               db\<lparr>reservations := reservations db @
                      [new_reservation_row (next_uuid db) customer_id reservation_data],
                  next_uuid := next_uuid db + 1\<rparr>))"

text \<open>
  Step 3: one INSERT per requested table. The schema rejects a second row for the
  same reservation and table, and a row whose reservation or table does not exist.
\<close>

fun assign_tables :: "database \<Rightarrow> uuid \<Rightarrow> uuid list \<Rightarrow> error + database" where
  "assign_tables db reservation_id [] = Inr db"
| "assign_tables db reservation_id (table_id # rest) =
     (if list_ex (\<lambda>ta. ta_reservation_id ta = reservation_id \<and> ta_table_id ta = table_id)
           (table_assignments db)
      then Inl UniqueViolationError
      else if \<not> (list_ex (\<lambda>r. r_id r = reservation_id) (reservations db)
                  \<and> list_ex (\<lambda>t. t_id t = table_id) (tables db))
      then Inl ForeignKeyViolationError
      else assign_tables
             (db\<lparr>table_assignments := table_assignments db @
                    [\<lparr>ta_reservation_id = reservation_id, ta_table_id = table_id\<rparr>]\<rparr>)
             reservation_id rest)"

text \<open>
  \<open>Database.create_reservation\<close>. Everything after the contact step runs in one
  transaction: when a statement raises, the database is as before the call.
\<close>

definition create_reservation ::
  "(string \<Rightarrow> string) \<Rightarrow> database \<Rightarrow> customer_data \<Rightarrow> reservation_data \<Rightarrow> uuid list
   \<Rightarrow> (error + reservation_view option) \<times> database" where
  "create_reservation md5_hexdigest db customer_data reservation_data table_ids =
     (let customer_data' = resolve_contact md5_hexdigest customer_data (rd_party_size reservation_data)
      in case get_or_create_customer db customer_data' of
           Inl e \<Rightarrow> (Inl e, db)
         | Inr (customer_id, db1) \<Rightarrow>
             (case insert_reservation db1 customer_id reservation_data of
                Inl e \<Rightarrow> (Inl e, db)
              | Inr (reservation_id, db2) \<Rightarrow>
                  (case assign_tables db2 reservation_id table_ids of
                     Inl e \<Rightarrow> (Inl e, db)
                   | Inr db3 \<Rightarrow>
                       (case returned (get_reservation_by_id db3 reservation_id Conn) of
                          Inl e \<Rightarrow> (Inl e, db)
                        | Inr result \<Rightarrow> (Inr result, db3)))))"

text \<open>
  The handler of \<open>POST /reservations\<close>: the checks, which only read, and then the call
  of \<open>Database.create_reservation\<close>.
\<close>

fun verify_requested_tables :: "uuid list \<Rightarrow> uuid list \<Rightarrow> error + unit" where
  "verify_requested_tables available_table_ids [] = Inr ()"
| "verify_requested_tables available_table_ids (table_id # rest) =
     (if table_id \<notin> set available_table_ids
      then Inl (HTTPException 400 (Table_not_available table_id))
      else verify_requested_tables available_table_ids rest)"

definition booking_checks :: "database \<Rightarrow> reservation_data \<Rightarrow> uuid list \<Rightarrow> error + unit" where
  "booking_checks db reservation table_ids =
     (case is_valid_reservation_time db (rd_reservation_date reservation)
             (rd_start_time reservation) (rd_duration_minutes reservation) of
        Inl e \<Rightarrow> Inl e
      | Inr is_valid \<Rightarrow>
          if \<not> is_valid then Inl (HTTPException 400 Outside_operating_hours)
          else (case get_available_tables db (rd_party_size reservation)
                       (rd_reservation_date reservation) (rd_start_time reservation)
                       (rd_duration_minutes reservation) of
                  Inl e \<Rightarrow> Inl e
                | Inr available_tables \<Rightarrow>
                    verify_requested_tables (map t_id available_tables) table_ids))"

definition main_create_reservation ::
  "(string \<Rightarrow> string) \<Rightarrow> database \<Rightarrow> customer_data \<Rightarrow> reservation_data \<Rightarrow> uuid list
   \<Rightarrow> (error + reservation_view option) \<times> database" where
  "main_create_reservation md5_hexdigest db customer reservation table_ids =
     (case booking_checks db reservation table_ids of
        Inl e \<Rightarrow> (Inl e, db)
      | Inr _ \<Rightarrow> create_reservation md5_hexdigest db customer reservation table_ids)"

text \<open>A walk-in guest without contact details, and a dinner booking for \<open>n\<close> guests.\<close>

definition walk_in :: customer_data where
  "walk_in = \<lparr>cd_name = ''  Alice Smith '', cd_email = None, cd_phone = None, cd_notes = None\<rparr>"

definition dinner :: "int \<Rightarrow> reservation_data" where
  "dinner n = \<lparr>rd_party_size = n, rd_reservation_date = 739000, rd_start_time = hm 18 0,
               rd_duration_minutes = 90, rd_notes = None, rd_status = ''pending''\<rparr>"

text \<open>
  Identifiers are fresh: no row carries an identifier the counter has yet to hand out,
  and customers have distinct identifiers.
\<close>

definition uuids_fresh :: "database \<Rightarrow> bool" where
  "uuids_fresh db \<longleftrightarrow>
     list_all (\<lambda>c. c_id c < next_uuid db) (customers db)
     \<and> list_all (\<lambda>r. r_id r < next_uuid db) (reservations db)
     \<and> list_all (\<lambda>ta. ta_reservation_id ta < next_uuid db) (table_assignments db)
     \<and> distinct (map c_id (customers db))"





text \<open>
  Two stand-ins for the digest function, for examples: one that returns the same
  digest for every input, and one that spells the codes of the first 16 characters
  of its input in hexadecimal and fills up with zeros.
\<close>

definition sample_digest :: "string \<Rightarrow> string" where
  "sample_digest s = ''5d41402abc4b2a76b9719d911017c592''"

definition hex_digit :: "nat \<Rightarrow> char" where
  "hex_digit n = ''0123456789abcdef'' ! (n mod 16)"

definition spelling_digest :: "string \<Rightarrow> string" where
  "spelling_digest s =
     take 32 (concat (map (\<lambda>c. [hex_digit (of_char c div 16), hex_digit (of_char c)]) s)
              @ replicate 32 (CHR ''0''))"

section \<open>Tables and their chairs\<close>

text \<open>
  The dictionary \<open>create_table\<close> receives is \<open>table.dict()\<close>, with every key of the
  request model. The dictionary of \<open>update_table\<close> may leave keys out: a field is None
  when its key is absent.
\<close>

record table_data =
  td_table_number :: string
  td_min_capacity :: int
  td_max_capacity :: int
  td_is_shared :: bool
  td_location :: "string option"

record table_update =
  tu_table_number :: "string option"
  tu_min_capacity :: "int option"
  tu_max_capacity :: "int option"
  tu_is_shared :: "bool option"
  tu_location :: "string option option"

text \<open>
  The chairs of a table, as the relation holds them. The rows that
  \<^verbatim>\<open>SELECT id FROM chairs WHERE table_id = $1\<close> returns are these in the order the
  database chooses: \<open>update_table\<close> receives that choice as \<open>row_order\<close>, a function
  that permutes the rows it is given.
\<close>

definition table_chairs :: "database \<Rightarrow> uuid \<Rightarrow> chair_row list" where
  "table_chairs db table_id = filter (\<lambda>c. ch_table_id c = table_id) (chairs db)"

definition permutes_rows :: "(chair_row list \<Rightarrow> chair_row list) \<Rightarrow> bool" where
  "permutes_rows row_order \<longleftrightarrow> (\<forall>rows. mset (row_order rows) = mset rows)"

text \<open>The \<open>m\<close> oldest of a list of chairs, by \<open>created_at\<close>.\<close>

definition oldest_chairs :: "nat \<Rightarrow> chair_row list \<Rightarrow> chair_row list" where
  "oldest_chairs m cs = take m (sort_key ch_created_at cs)"

text \<open>
  \<^verbatim>\<open>for _ in range(n): INSERT INTO chairs (table_id, is_assigned) VALUES ($1, true)\<close>
  The schema rejects a chair of a table that does not exist.
\<close>

fun insert_chairs :: "database \<Rightarrow> uuid \<Rightarrow> nat \<Rightarrow> error + database" where
  "insert_chairs db table_id 0 = Inr db"
| "insert_chairs db table_id (Suc n) =
     (if \<not> list_ex (\<lambda>t. t_id t = table_id) (tables db) then Inl ForeignKeyViolationError
      else insert_chairs
             (db\<lparr>chairs := chairs db @
                    [\<lparr>ch_id = next_uuid db, ch_table_id = table_id, ch_is_assigned = True,
                      ch_created_at = next_uuid db\<rparr>],
                 next_uuid := next_uuid db + 1\<rparr>)
             table_id n)"

text \<open>\<^verbatim>\<open>for chair in chairs_to_remove: DELETE FROM chairs WHERE id = $1\<close>\<close>

fun delete_chairs :: "database \<Rightarrow> chair_row list \<Rightarrow> database" where
  "delete_chairs db [] = db"
| "delete_chairs db (chair # rest) =
     delete_chairs (db\<lparr>chairs := filter (\<lambda>c. ch_id c \<noteq> ch_id chair) (chairs db)\<rparr>) rest"

text \<open>Python's slice \<open>xs[k:]\<close>: a negative \<open>k\<close> counts from the end.\<close>

definition slice_from :: "'a list \<Rightarrow> int \<Rightarrow> 'a list" where
  "slice_from xs k =
     (if k < 0 then drop (nat (max 0 (int (length xs) + k))) xs else drop (nat k) xs)"

text \<open>
  \<open>create_table\<close> and \<open>update_table\<close> run their statements outside a transaction, so
  what a statement has written stays when a later one raises. The schema rejects a
  second table with the same table number.
\<close>

definition create_table :: "database \<Rightarrow> table_data \<Rightarrow> (error + table_row) \<times> database" where
  "create_table db table_data =
     (if list_ex (\<lambda>t. t_table_number t = td_table_number table_data) (tables db)
      then (Inl UniqueViolationError, db)
      else (let record = \<lparr>t_id = next_uuid db,
                           t_table_number = td_table_number table_data,
                           t_min_capacity = td_min_capacity table_data,
                           t_max_capacity = td_max_capacity table_data,
                           t_is_shared = td_is_shared table_data,
                           t_location = td_location table_data\<rparr>;
                db1 = db\<lparr>tables := tables db @ [record], next_uuid := next_uuid db + 1\<rparr>;
                chair_count = td_max_capacity table_data
            in case insert_chairs db1 (t_id record) (nat chair_count) of
                 Inl e \<Rightarrow> (Inl e, db1)
               | Inr db2 \<Rightarrow> (Inr record, db2)))"

text \<open>The SET clause built from the keys present, and the check that there is one.\<close>

definition set_fields :: "table_update \<Rightarrow> table_row \<Rightarrow> table_row" where
  "set_fields table_data t =
     t\<lparr>t_table_number := (case tu_table_number table_data of None \<Rightarrow> t_table_number t | Some v \<Rightarrow> v),
       t_min_capacity := (case tu_min_capacity table_data of None \<Rightarrow> t_min_capacity t | Some v \<Rightarrow> v),
       t_max_capacity := (case tu_max_capacity table_data of None \<Rightarrow> t_max_capacity t | Some v \<Rightarrow> v),
       t_is_shared := (case tu_is_shared table_data of None \<Rightarrow> t_is_shared t | Some v \<Rightarrow> v),
       t_location := (case tu_location table_data of None \<Rightarrow> t_location t | Some v \<Rightarrow> v)\<rparr>"

definition no_fields :: "table_update \<Rightarrow> bool" where
  "no_fields table_data \<longleftrightarrow>
     tu_table_number table_data = None \<and> tu_min_capacity table_data = None
     \<and> tu_max_capacity table_data = None \<and> tu_is_shared table_data = None
     \<and> tu_location table_data = None"

text \<open>The UPDATE violates the unique table number when another table has the new one.\<close>

definition number_taken :: "database \<Rightarrow> uuid \<Rightarrow> table_update \<Rightarrow> bool" where
  "number_taken db table_id table_data =
     (case tu_table_number table_data of
        None \<Rightarrow> False
      | Some n \<Rightarrow>
          list_ex (\<lambda>t. t_id t = table_id) (tables db)
          \<and> list_ex (\<lambda>t. t_id t \<noteq> table_id \<and> t_table_number t = n) (tables db))"

definition update_table ::
  "(chair_row list \<Rightarrow> chair_row list) \<Rightarrow> database \<Rightarrow> uuid \<Rightarrow> table_update
   \<Rightarrow> (error + table_row option) \<times> database" where
  "update_table row_order db table_id table_data =
     (if no_fields table_data then (Inl ValueError, db)
      else if number_taken db table_id table_data then (Inl UniqueViolationError, db)
      else (let db1 = db\<lparr>tables := map (\<lambda>t. if t_id t = table_id then set_fields table_data t else t)
                                       (tables db)\<rparr>;
                record = find (\<lambda>t. t_id t = table_id) (tables db1)
            in case tu_max_capacity table_data of
                 None \<Rightarrow> (Inr record, db1)
               | Some target_count \<Rightarrow>
                   (let current_chairs = row_order (table_chairs db1 table_id);
                        current_count = int (length current_chairs)
                    in if current_count < target_count
                       then (case insert_chairs db1 table_id (nat (target_count - current_count)) of
                               Inl e \<Rightarrow> (Inl e, db1)
                             | Inr db2 \<Rightarrow> (Inr record, db2))
                       else if current_count > target_count
                       then (Inr record, delete_chairs db1 (slice_from current_chairs target_count))
                       else (Inr record, db1))))"

text \<open>The handler of \<open>PUT /tables/{id}\<close> passes every field of the request model.\<close>

definition main_update_table ::
  "(chair_row list \<Rightarrow> chair_row list) \<Rightarrow> database \<Rightarrow> uuid \<Rightarrow> table_data
   \<Rightarrow> (error + table_row) \<times> database" where
  "main_update_table row_order db table_id table =
     (case update_table row_order db table_id
             \<lparr>tu_table_number = Some (td_table_number table),
              tu_min_capacity = Some (td_min_capacity table),
              tu_max_capacity = Some (td_max_capacity table),
              tu_is_shared = Some (td_is_shared table),
              tu_location = Some (td_location table)\<rparr> of
        (Inl e, db') \<Rightarrow> (Inl e, db')
      | (Inr None, db') \<Rightarrow> (Inl (HTTPException 404 Table_not_found), db')
      | (Inr (Some updated), db') \<Rightarrow> (Inr updated, db'))"

text \<open>
  Chairs have distinct identifiers, and neither a chair's identifier nor its table's
  is one the counter has yet to hand out.
\<close>

definition chairs_fresh :: "database \<Rightarrow> bool" where
  "chairs_fresh db \<longleftrightarrow>
     distinct (map ch_id (chairs db))
     \<and> list_all (\<lambda>c. ch_id c < next_uuid db \<and> ch_table_id c < next_uuid db) (chairs db)"

text \<open>A table for four, and an update of the maximum capacity alone.\<close>

definition four_top :: table_data where
  "four_top = \<lparr>td_table_number = ''T9'', td_min_capacity = 2, td_max_capacity = 4,
               td_is_shared = False, td_location = None\<rparr>"

definition resize :: "int \<Rightarrow> table_update" where
  "resize m = \<lparr>tu_table_number = None, tu_min_capacity = None, tu_max_capacity = Some m,
               tu_is_shared = None, tu_location = None\<rparr>"

text \<open>The database after the table for four is created in an empty one.\<close>

definition four_top_db :: database where
  "four_top_db = snd (create_table empty_database four_top)"

section \<open>Updating a reservation\<close>

text \<open>
  \<open>update_data\<close> is \<open>reservation.dict(exclude_unset=True)\<close> without \<open>table_ids\<close>: a
  field is None when its key is absent. \<open>table_ids\<close> is None when the request leaves it
  out.
\<close>

record reservation_update =
  ru_party_size :: "int option"
  ru_reservation_date :: "date option"
  ru_start_time :: "time_of_day option"
  ru_duration_minutes :: "int option"
  ru_notes :: "string option option"
  ru_status :: "string option"

definition no_reservation_fields :: "reservation_update \<Rightarrow> bool" where
  "no_reservation_fields reservation_data \<longleftrightarrow>
     ru_party_size reservation_data = None \<and> ru_reservation_date reservation_data = None
     \<and> ru_start_time reservation_data = None \<and> ru_duration_minutes reservation_data = None
     \<and> ru_notes reservation_data = None \<and> ru_status reservation_data = None"

definition set_reservation_fields :: "reservation_update \<Rightarrow> reservation_row \<Rightarrow> reservation_row" where
  "set_reservation_fields reservation_data r =
     r\<lparr>r_party_size := (case ru_party_size reservation_data of None \<Rightarrow> r_party_size r | Some v \<Rightarrow> v),
       r_reservation_date :=
         (case ru_reservation_date reservation_data of None \<Rightarrow> r_reservation_date r | Some v \<Rightarrow> v),
       r_start_time := (case ru_start_time reservation_data of None \<Rightarrow> r_start_time r | Some v \<Rightarrow> v),
       r_duration_minutes :=
         (case ru_duration_minutes reservation_data of None \<Rightarrow> r_duration_minutes r | Some v \<Rightarrow> v),
       r_notes := (case ru_notes reservation_data of None \<Rightarrow> r_notes r | Some v \<Rightarrow> v),
       r_status := (case ru_status reservation_data of None \<Rightarrow> r_status r | Some v \<Rightarrow> v)\<rparr>"

text \<open>
  \<^verbatim>\<open>DELETE FROM table_assignments WHERE reservation_id = $1\<close>, then one INSERT per new
  table.
\<close>

definition reassign_tables :: "database \<Rightarrow> uuid \<Rightarrow> uuid list option \<Rightarrow> error + database" where
  "reassign_tables db reservation_id table_ids =
     (case table_ids of
        None \<Rightarrow> Inr db
      | Some ids \<Rightarrow>
          assign_tables
            (db\<lparr>table_assignments :=
                  filter (\<lambda>ta. ta_reservation_id ta \<noteq> reservation_id) (table_assignments db)\<rparr>)
            reservation_id ids)"

text \<open>
  \<open>Database.update_reservation\<close>. The UPDATE, the reassignment and the final lookup run
  in one transaction; the lookup is called without a connection argument.
\<close>

definition update_reservation ::
  "database \<Rightarrow> uuid \<Rightarrow> reservation_update \<Rightarrow> uuid list option
   \<Rightarrow> (error + reservation_view option) \<times> database" where
  "update_reservation db reservation_id reservation_data table_ids =
     (if no_reservation_fields reservation_data \<and> table_ids = None then (Inl ValueError, db)
      else if \<not> no_reservation_fields reservation_data
              \<and> \<not> list_ex (\<lambda>r. r_id r = reservation_id) (reservations db)
      then (Inr None, db)
      else (let db1 = (if no_reservation_fields reservation_data then db
                       else db\<lparr>reservations :=
                               map (\<lambda>r. if r_id r = reservation_id
                                         then set_reservation_fields reservation_data r else r)
                                 (reservations db)\<rparr>)
            in case reassign_tables db1 reservation_id table_ids of
                 Inl e \<Rightarrow> (Inl e, db)
               | Inr db2 \<Rightarrow>
                   (case returned (get_reservation_by_id db2 reservation_id default_conn) of
                      Inl e \<Rightarrow> (Inl e, db)
                    | Inr result \<Rightarrow> (Inr result, db2))))"

text \<open>
  The checks of the handler of \<open>PUT /reservations/{id}\<close>, given the current
  reservation. The availability check stands inside the branch taken when the date,
  the start time or the duration changes.
\<close>

definition update_checks ::
  "database \<Rightarrow> reservation_view \<Rightarrow> reservation_update \<Rightarrow> uuid list option \<Rightarrow> error + unit" where
  "update_checks db current update_data table_ids =
     (let time_change = (\<not> (ru_reservation_date update_data = None
                              \<and> ru_start_time update_data = None
                              \<and> ru_duration_minutes update_data = None))
      in if time_change
         then (let check_date = (case ru_reservation_date update_data of
                                   Some v \<Rightarrow> v
                                 | None \<Rightarrow> r_reservation_date (rv_reservation current));
                   check_time = (case ru_start_time update_data of
                                   Some v \<Rightarrow> v
                                 | None \<Rightarrow> r_start_time (rv_reservation current));
                   check_duration = (case ru_duration_minutes update_data of
                                       Some v \<Rightarrow> v
                                     | None \<Rightarrow> r_duration_minutes (rv_reservation current))
               in case is_valid_reservation_time db check_date check_time check_duration of
                    Inl e \<Rightarrow> Inl e
                  | Inr is_valid \<Rightarrow>
                      if \<not> is_valid then Inl (HTTPException 400 Updated_outside_operating_hours)
                      else if \<not> (table_ids = None \<and> \<not> time_change)
                      then (let party_size = (case ru_party_size update_data of
                                                Some v \<Rightarrow> v
                                              | None \<Rightarrow> r_party_size (rv_reservation current))
                            in case get_available_tables db party_size check_date check_time
                                      check_duration of
                                 Inl e \<Rightarrow> Inl e
                               | Inr available_tables \<Rightarrow>
                                   (case table_ids of
                                      None \<Rightarrow> Inr ()
                                    | Some ids \<Rightarrow>
                                        verify_requested_tables
                                          (remdups (map t_id available_tables
                                                    @ map t_id (rv_tables current)))
                                          ids))
                      else Inr ())
         else Inr ())"

text \<open>
  The handler: the lookup of the current reservation, called without a connection
  argument, the checks, and the update.
\<close>

definition main_update_reservation ::
  "database \<Rightarrow> uuid \<Rightarrow> reservation_update \<Rightarrow> uuid list option
   \<Rightarrow> (error + reservation_view) \<times> database" where
  "main_update_reservation db reservation_id update_data table_ids =
     (case returned (get_reservation_by_id db reservation_id default_conn) of
        Inl e \<Rightarrow> (Inl e, db)
      | Inr None \<Rightarrow> (Inl (HTTPException 404 Reservation_not_found), db)
      | Inr (Some current) \<Rightarrow>
          (case update_checks db current update_data table_ids of
             Inl e \<Rightarrow> (Inl e, db)
           | Inr _ \<Rightarrow>
               (case update_reservation db reservation_id update_data table_ids of
                  (Inl e, db') \<Rightarrow> (Inl e, db')
                | (Inr None, db') \<Rightarrow> (Inl (HTTPException 404 Reservation_not_found), db')
                | (Inr (Some updated), db') \<Rightarrow> (Inr updated, db'))))"

text \<open>An update of the start time alone, and an update of nothing but the tables.\<close>

definition move_to :: "time_of_day \<Rightarrow> reservation_update" where
  "move_to t = \<lparr>ru_party_size = None, ru_reservation_date = None, ru_start_time = Some t,
               ru_duration_minutes = None, ru_notes = None, ru_status = None\<rparr>"

definition no_change :: reservation_update where
  "no_change = \<lparr>ru_party_size = None, ru_reservation_date = None, ru_start_time = None,
               ru_duration_minutes = None, ru_notes = None, ru_status = None\<rparr>"

section \<open>Occupancy of a table\<close>

text \<open>
  The party sizes of the reservations that count against a window at a table, added
  up: the quantity the specification bounds by the maximum capacity.
\<close>

definition occupancy :: "database \<Rightarrow> table_row \<Rightarrow> date \<Rightarrow> time_of_day \<Rightarrow> time_of_day \<Rightarrow> int" where
  "occupancy db t d req_start req_end =
     (\<Sum>r\<leftarrow>blocking_reservations db t d req_start req_end. r_party_size r)"

text \<open>
  Two requests for a party of five at the shared table, for the same window, whose
  checks both read the quiet database before either commits: the state after the
  first commit and after the second.
\<close>

definition after_first_commit :: database where
  "after_first_commit = snd (create_reservation sample_digest quiet_db walk_in (dinner 5) [2])"

definition after_second_commit :: database where
  "after_second_commit =
     snd (create_reservation sample_digest after_first_commit walk_in (dinner 5) [2])"

text \<open>
  Two bookings handled one after the other, for 18:00 and for 19:30, and the states
  after each.
\<close>

definition late_dinner :: "int \<Rightarrow> reservation_data" where
  "late_dinner n = (dinner n)\<lparr>rd_start_time := hm 19 30\<rparr>"

definition after_early_dinner :: database where
  "after_early_dinner = snd (main_create_reservation sample_digest quiet_db walk_in (dinner 5) [2])"

definition after_late_dinner :: database where
  "after_late_dinner =
     snd (main_create_reservation sample_digest after_early_dinner walk_in (late_dinner 5) [2])"

text \<open>
  A supper for three, and the database after the walk-in guest has booked it from
  22:00 for 120 minutes at the exclusive table for four.
\<close>

definition supper :: "time_of_day \<Rightarrow> int \<Rightarrow> reservation_data" where
  "supper start minutes =
     \<lparr>rd_party_size = 3, rd_reservation_date = 739000, rd_start_time = start,
      rd_duration_minutes = minutes, rd_notes = None, rd_status = ''pending''\<rparr>"

definition after_supper :: database where
  "after_supper =
     snd (main_create_reservation sample_digest quiet_db walk_in (supper (hm 22 0) 120) [1])"

section \<open>Properties of the overlap test\<close>

lemma overlap_same_day:
  assumes "r_start < r_end" and "req_start < req_end"
  shows "overlapping_time_ranges r_start r_end req_start req_end
         = half_open_overlap r_start r_end req_start req_end"
  using assms unfolding overlapping_time_ranges_def half_open_overlap_def by auto

lemma overlap_self:
  "overlapping_time_ranges s e s e"
  unfolding overlapping_time_ranges_def by auto

text \<open>
  Claim C3. For windows \<open>[start, end)\<close> of positive length, the three-clause disjunction
  of the query holds exactly when the two-clause test \<open>a.start < b.end \<and> b.start < a.end\<close>
  holds, and a window that ends when the other starts does not overlap it, on either
  side.
\<close>

theorem three_clause_overlap_is_half_open_overlap:
  assumes "r_start < r_end" and "req_start < req_end"
  shows "(overlapping_time_ranges r_start r_end req_start req_end
            \<longleftrightarrow> half_open_overlap r_start r_end req_start req_end)
         \<and> (overlapping_time_ranges r_start r_end req_start req_end
            \<longleftrightarrow> r_start < req_end \<and> req_start < r_end)
         \<and> (r_end = req_start
            \<longrightarrow> \<not> overlapping_time_ranges r_start r_end req_start req_end)
         \<and> (req_end = r_start
            \<longrightarrow> \<not> overlapping_time_ranges r_start r_end req_start req_end)"
proof -
  have eq: "overlapping_time_ranges r_start r_end req_start req_end
            \<longleftrightarrow> r_start < req_end \<and> req_start < r_end"
    using assms unfolding overlapping_time_ranges_def by auto
  show ?thesis
    using eq assms unfolding half_open_overlap_def by auto
qed

theorem three_clause_overlap_witness:
  "hm 18 0 < hm 19 30 \<and> hm 19 30 < hm 21 0
   \<and> \<not> overlapping_time_ranges (hm 18 0) (hm 19 30) (hm 19 30) (hm 21 0)
   \<and> \<not> half_open_overlap (hm 18 0) (hm 19 30) (hm 19 30) (hm 21 0)"
proof -
  have a: "hm 18 0 < hm 19 30" and b: "hm 19 30 < hm 21 0"
    by (simp_all add: hm_def usec_per_minute_def)
  have "\<not> overlapping_time_ranges (hm 18 0) (hm 19 30) (hm 19 30) (hm 21 0)"
    using three_clause_overlap_is_half_open_overlap [OF a b] by blast
  moreover have "\<not> half_open_overlap (hm 18 0) (hm 19 30) (hm 19 30) (hm 21 0)"
    by (simp add: half_open_overlap_def)
  ultimately show ?thesis
    using a b by simp
qed

section \<open>Properties of the operating-hours check\<close>

lemma end_time_same_day:
  assumes "0 \<le> start_time + duration_minutes * usec_per_minute"
      and "start_time + duration_minutes * usec_per_minute < usec_per_day"
  shows "end_time start_time duration_minutes
         = Inr (start_time + duration_minutes * usec_per_minute)"
  using assms
  unfolding end_time_def Let_def datetime_max_ordinal_def usec_per_day_def
  by simp

text \<open>
  While the window ends before midnight of its own day, the check agrees with the
  rule of the specification.
\<close>

lemma is_valid_reservation_time_same_day:
  assumes "0 \<le> start_time + duration_minutes * usec_per_minute"
      and "start_time + duration_minutes * usec_per_minute < usec_per_day"
      and "\<forall>sp \<in> set (special_hours db). special_row_ok sp"
  shows "is_valid_reservation_time db d start_time duration_minutes
         = Inr (window_within_hours db d start_time duration_minutes)"
proof (cases "find (\<lambda>s. s_date s = d) (special_hours db)")
  case None
  then show ?thesis
    using end_time_same_day [OF assms(1,2)]
    by (auto simp: is_valid_reservation_time_def window_within_hours_def resolve_def
             split: option.splits)
next
  case (Some sp)
  then have "sp \<in> set (special_hours db)"
    by (auto simp: find_Some_iff)
  then have "special_row_ok sp" using assms(3) by blast
  then show ?thesis
    using Some end_time_same_day [OF assms(1,2)]
    by (auto simp: is_valid_reservation_time_def window_within_hours_def resolve_def
                   special_row_ok_def time_lt_def time_gt_def split: bool.splits)
qed

text \<open>
  Claim C4. The check is meant to return true exactly when the start lies between the
  opening and the last-reservation time and the start plus the duration is no later
  than the closing time of the resolved hours. With the evening schedule (close 23:30,
  last reservation 22:30), a start at 22:30 and 120 minutes, the window ends at 00:30 of
  the next day; the code compares the wrapped end time 00:30 with 23:30 and returns
  true, where the rule gives false.
\<close>

theorem is_valid_reservation_time_accepts_window_past_close:
  "is_valid_reservation_time evening_db 739000 (hm 22 30) 120 = Inr True
   \<and> \<not> window_within_hours evening_db 739000 (hm 22 30) 120
   \<and> end_time (hm 22 30) 120 = Inr (hm 0 30)"
  by (simp add: is_valid_reservation_time_def window_within_hours_def resolve_def
        evening_db_def evening_hours_def empty_database_def end_time_def hm_def
        usec_per_minute_def usec_per_day_def datetime_max_ordinal_def weekday_def Let_def)

section \<open>Windows within one day and windows past midnight\<close>

lemma r_end_time_same_day:
  assumes "0 \<le> r_start_time r" and "0 < r_duration_minutes r"
      and "r_start_time r + r_duration_minutes r * usec_per_minute < usec_per_day"
  shows "r_end_time r = r_start_time r + r_duration_minutes r * usec_per_minute"
    and "r_start_time r < r_end_time r"
proof -
  have pos: "0 < r_duration_minutes r * usec_per_minute"
    using assms(2) by (simp add: usec_per_minute_def)
  then show "r_end_time r = r_start_time r + r_duration_minutes r * usec_per_minute"
    using assms(1,3) by (simp add: r_end_time_def)
  then show "r_start_time r < r_end_time r"
    using pos by simp
qed

text \<open>
  For a stored reservation and a request that both end before midnight of their day,
  the test of the query is the overlap of the half-open windows.
\<close>

lemma overlap_of_same_day_windows:
  assumes "0 \<le> r_start_time r" and "0 < r_duration_minutes r"
      and "r_start_time r + r_duration_minutes r * usec_per_minute < usec_per_day"
      and "0 \<le> start_time" and "0 < duration_minutes"
      and "start_time + duration_minutes * usec_per_minute < usec_per_day"
  shows "\<exists>end_t. end_time start_time duration_minutes = Inr end_t
           \<and> (overlapping_time_ranges (r_start_time r) (r_end_time r) start_time end_t
                \<longleftrightarrow> half_open_overlap
                      (r_start_time r) (r_start_time r + r_duration_minutes r * usec_per_minute)
                      start_time (start_time + duration_minutes * usec_per_minute))"
proof -
  have pos: "0 < duration_minutes * usec_per_minute"
    using assms(5) by (simp add: usec_per_minute_def)
  have e: "end_time start_time duration_minutes
           = Inr (start_time + duration_minutes * usec_per_minute)"
    using end_time_same_day [of start_time duration_minutes] assms(4,6) pos by simp
  have lt: "start_time < start_time + duration_minutes * usec_per_minute"
    using pos by simp
  show ?thesis
    unfolding e
    using overlap_same_day [OF r_end_time_same_day(2) [OF assms(1-3)] lt]
      r_end_time_same_day(1) [OF assms(1-3)]
    by simp
qed

text \<open>
  A window that runs past midnight is stored with a wrapped end time, and the test of
  the query no longer sees it: a party seated from 23:00 for 120 minutes does not
  count against a request for 23:30 to 23:45.
\<close>

lemma overlap_misses_window_past_midnight:
  "r_end_time ((party_of_three 10)\<lparr>r_start_time := hm 23 0, r_duration_minutes := 120\<rparr>) = hm 1 0
   \<and> \<not> overlapping_time_ranges (hm 23 0) (hm 1 0) (hm 23 30) (hm 23 45)
   \<and> half_open_overlap (hm 23 0) (hm 23 0 + 120 * usec_per_minute) (hm 23 30) (hm 23 45)"
  by (simp add: r_end_time_def party_of_three_def overlapping_time_ranges_def
        half_open_overlap_def hm_def usec_per_minute_def usec_per_day_def)

text \<open>
  A request of no duration is not a window of positive duration either: the query
  counts a reservation that starts with it, which the overlap of half-open windows
  does not.
\<close>

lemma overlap_with_empty_window:
  "overlapping_time_ranges (hm 18 0) (hm 19 30) (hm 18 0) (hm 18 0)
   \<and> \<not> half_open_overlap (hm 18 0) (hm 19 30) (hm 18 0) (hm 18 0)"
  by (simp add: overlapping_time_ranges_def half_open_overlap_def hm_def usec_per_minute_def)

section \<open>Properties of the availability query\<close>

lemma truncate_extend [simp]: "table_row.truncate (table_row.extend t m) = t"
  by (simp add: table_row.truncate_def table_row.extend_def)

lemma inner_sum:
  assumes "distinct (map (\<lambda>ta. (ta_reservation_id ta, ta_table_id ta)) tas)"
  shows "sum_list [p. (tid, p) \<leftarrow> concat (map (\<lambda>ta. if rid = ta_reservation_id ta \<and> C
                                                     then [(ta_table_id ta, (p0::int))] else []) tas),
                      k = tid]
         = (if C \<and> list_ex (\<lambda>ta. ta_reservation_id ta = rid \<and> ta_table_id ta = k) tas
            then p0 else 0)"
  using assms
proof (induction tas)
  case Nil
  then show ?case by simp
next
  case (Cons ta tas)
  then show ?case
    by (auto simp: list_ex_iff image_iff)
qed

lemma tables_in_booked:
  "k \<in> set (booked_tables db d s e) \<longleftrightarrow>
     (\<exists>r \<in> set (reservations db). \<exists>ta \<in> set (table_assignments db).
        r_id r = ta_reservation_id ta \<and> ta_table_id ta = k \<and> r_reservation_date r = d
        \<and> active_status (r_status r)
        \<and> overlapping_time_ranges (r_start_time r) (r_end_time r) s e)"
  by (auto simp: booked_tables_def overlapping_reservations_def image_iff split: if_splits)

lemma booked_iff_blocking:
  "t_id t \<in> set (booked_tables db d s e) \<longleftrightarrow> blocking_reservations db t d s e \<noteq> []"
  unfolding tables_in_booked blocking_reservations_def filter_empty_conv assigned_to_def list_ex_iff
  by (auto; metis)

lemma sum_party_size_shared:
  assumes "assignments_unique db" and "t_is_shared t"
  shows "sum_party_size (overlapping_reservations db d s e) t
         = (\<Sum>r\<leftarrow>blocking_reservations db t d s e. r_party_size r)"
proof -
  define tas where "tas = table_assignments db"
  have uniq: "distinct (map (\<lambda>ta. (ta_reservation_id ta, ta_table_id ta)) tas)"
    using assms(1) by (simp add: assignments_unique_def tas_def)
  have step: "sum_list [p. (tid, p) \<leftarrow> concat (map (\<lambda>ta.
                  if r_id r = ta_reservation_id ta \<and> C then [(ta_table_id ta, r_party_size r)]
                  else []) tas), t_id t = tid]
              = (if C \<and> list_ex (\<lambda>ta. ta_reservation_id ta = r_id r \<and> ta_table_id ta = t_id t) tas
                 then r_party_size r else 0)" for r C
    by (rule inner_sum [OF uniq])
  have all_rows: "sum_list [p. (tid, p) \<leftarrow> concat (map (\<lambda>r. concat (map (\<lambda>ta.
            if r_id r = ta_reservation_id ta
               \<and> (r_reservation_date r = d \<and> active_status (r_status r)
                  \<and> overlapping_time_ranges (r_start_time r) (r_end_time r) s e)
            then [(ta_table_id ta, r_party_size r)] else []) tas)) rs), t_id t = tid]
        = (\<Sum>r\<leftarrow>filter (\<lambda>r. list_ex (\<lambda>ta. ta_reservation_id ta = r_id r
                                                \<and> ta_table_id ta = t_id t) tas
                              \<and> r_reservation_date r = d \<and> active_status (r_status r)
                              \<and> overlapping_time_ranges (r_start_time r) (r_end_time r) s e) rs.
             r_party_size r)" for rs
  proof (induction rs)
    case Nil
    then show ?case by simp
  next
    case (Cons r rs)
    show ?case
      using Cons.IH step [of r "r_reservation_date r = d \<and> active_status (r_status r)
                  \<and> overlapping_time_ranges (r_start_time r) (r_end_time r) s e"]
      by simp
  qed
  have nest: "(if a then if b then x else [] else []) = (if a \<and> b then x else [])"
    for a b and x :: "(uuid \<times> int) list"
    by simp
  from all_rows [of "reservations db"] show ?thesis
    using assms(2)
    unfolding sum_party_size_def overlapping_reservations_def blocking_reservations_def
              assigned_to_def tas_def
    by (simp add: nest)
qed

lemma get_available_tables_set:
  assumes "end_time start_time duration_minutes = Inr end_t"
  shows "\<exists>rows. get_available_tables db party_size d start_time duration_minutes = Inr rows
           \<and> table_row.truncate ` set rows
             = {t \<in> set (tables db).
                  (t_id t \<notin> set (booked_tables db d start_time end_t) \<or> t_is_shared t)
                  \<and> t_min_capacity t \<le> party_size \<and> party_size \<le> t_max_capacity t
                  \<and> (\<not> t_is_shared t
                     \<or> party_size \<le> t_max_capacity t
                         - sum_party_size (overlapping_reservations db d start_time end_t) t)}"
  using assms
  by (auto simp: get_available_tables_def Let_def image_iff)

text \<open>
  What \<open>get_available_tables\<close> returns, in the terms of its query. For every database
  state with unique table assignments and every request whose end time Python can
  compute, it returns a list, and a table is in it exactly when the party size lies
  between its minimum and maximum capacity and, for an exclusive table, the query
  finds no reservation that blocks it, and, for a shared table, its maximum capacity
  minus the party sizes of the reservations the query finds is at least the party
  size. The test for overlap is the one of the query, on the stored start and the end
  time PostgreSQL computes.
\<close>

lemma get_available_tables_rows:
  assumes "end_time start_time duration_minutes = Inr end_t"
      and "assignments_unique db"
  shows "\<exists>rows. get_available_tables db party_size d start_time duration_minutes = Inr rows
           \<and> (\<forall>t. (\<exists>a \<in> set rows. table_row.truncate a = t) \<longleftrightarrow>
                  t \<in> set (tables db)
                  \<and> t_min_capacity t \<le> party_size \<and> party_size \<le> t_max_capacity t
                  \<and> (\<not> t_is_shared t \<longrightarrow> blocking_reservations db t d start_time end_t = [])
                  \<and> (t_is_shared t \<longrightarrow>
                       t_max_capacity t
                         - (\<Sum>r\<leftarrow>blocking_reservations db t d start_time end_t. r_party_size r)
                       \<ge> party_size))"
proof -
  obtain rows where rows: "get_available_tables db party_size d start_time duration_minutes = Inr rows"
    and img: "table_row.truncate ` set rows
             = {t \<in> set (tables db).
                  (t_id t \<notin> set (booked_tables db d start_time end_t) \<or> t_is_shared t)
                  \<and> t_min_capacity t \<le> party_size \<and> party_size \<le> t_max_capacity t
                  \<and> (\<not> t_is_shared t
                     \<or> party_size \<le> t_max_capacity t
                         - sum_party_size (overlapping_reservations db d start_time end_t) t)}"
    using get_available_tables_set [OF assms(1)] by blast
  have "(\<exists>a \<in> set rows. table_row.truncate a = t) \<longleftrightarrow>
          t \<in> set (tables db)
          \<and> t_min_capacity t \<le> party_size \<and> party_size \<le> t_max_capacity t
          \<and> (\<not> t_is_shared t \<longrightarrow> blocking_reservations db t d start_time end_t = [])
          \<and> (t_is_shared t \<longrightarrow>
               t_max_capacity t
                 - (\<Sum>r\<leftarrow>blocking_reservations db t d start_time end_t. r_party_size r)
               \<ge> party_size)" for t
  proof -
    have "(\<exists>a \<in> set rows. table_row.truncate a = t) \<longleftrightarrow> t \<in> table_row.truncate ` set rows"
      by auto
    also have "\<dots> \<longleftrightarrow> t \<in> set (tables db)
          \<and> (t_id t \<notin> set (booked_tables db d start_time end_t) \<or> t_is_shared t)
          \<and> t_min_capacity t \<le> party_size \<and> party_size \<le> t_max_capacity t
          \<and> (\<not> t_is_shared t
             \<or> party_size \<le> t_max_capacity t
                 - sum_party_size (overlapping_reservations db d start_time end_t) t)"
      unfolding img by simp
    also have "\<dots> \<longleftrightarrow> t \<in> set (tables db)
          \<and> t_min_capacity t \<le> party_size \<and> party_size \<le> t_max_capacity t
          \<and> (\<not> t_is_shared t \<longrightarrow> blocking_reservations db t d start_time end_t = [])
          \<and> (t_is_shared t \<longrightarrow>
               t_max_capacity t
                 - (\<Sum>r\<leftarrow>blocking_reservations db t d start_time end_t. r_party_size r)
               \<ge> party_size)"
    proof (cases "t_is_shared t")
      case True
      then show ?thesis
        using sum_party_size_shared [OF assms(2) True, of d start_time end_t] by auto
    next
      case False
      then show ?thesis
        using booked_iff_blocking [of t db d start_time end_t] by auto
    qed
    finally show ?thesis .
  qed
  with rows show ?thesis by blast
qed

lemma end_time_18_90: "end_time (hm 18 0) 90 = Inr (hm 19 30)"
  by (simp add: end_time_def hm_def usec_per_minute_def usec_per_day_def
        datetime_max_ordinal_def Let_def)

lemma scenario_unique: "assignments_unique scenario_db"
  by (simp add: assignments_unique_def scenario_db_def)

text \<open>
  Claim C1, as the code has it. For every database state with unique table
  assignments in which the window of every stored reservation lies within its day,
  and every request whose window lies within its day, \<open>get_available_tables\<close> returns
  a list, and a table is in it exactly when the party size lies between its minimum
  and maximum capacity and, for an exclusive table, no reservation competes for it,
  and, for a shared table, its maximum capacity minus the party sizes of the competing
  reservations is at least the party size. The competing reservations are those
  assigned to the table on the date, neither cancelled nor no_show, whose window from
  start to start plus duration overlaps the requested one.
\<close>

theorem get_available_tables_same_day:
  assumes uniq: "assignments_unique db"
      and req: "same_day_window start_time duration_minutes"
      and stored: "list_all (\<lambda>r. same_day_window (r_start_time r) (r_duration_minutes r))
                     (reservations db)"
  shows "\<exists>rows. get_available_tables db party_size d start_time duration_minutes = Inr rows
           \<and> (\<forall>t. (\<exists>a \<in> set rows. table_row.truncate a = t) \<longleftrightarrow>
                  t \<in> set (tables db)
                  \<and> t_min_capacity t \<le> party_size \<and> party_size \<le> t_max_capacity t
                  \<and> (\<not> t_is_shared t \<longrightarrow>
                       competing_reservations db t d start_time duration_minutes = [])
                  \<and> (t_is_shared t \<longrightarrow>
                       t_max_capacity t
                         - (\<Sum>r\<leftarrow>competing_reservations db t d start_time duration_minutes.
                              r_party_size r)
                       \<ge> party_size))"
proof -
  let ?e = "start_time + duration_minutes * usec_per_minute"
  have r0: "0 \<le> start_time" and r1: "0 < duration_minutes" and r2: "?e < usec_per_day"
    using req by (simp_all add: same_day_window_def)
  have pos: "0 < duration_minutes * usec_per_minute"
    using r1 by (simp add: usec_per_minute_def)
  have e: "end_time start_time duration_minutes = Inr ?e"
    using end_time_same_day [of start_time duration_minutes] r0 r2 pos by simp
  have test: "overlapping_time_ranges (r_start_time r) (r_end_time r) start_time ?e
              \<longleftrightarrow> half_open_overlap
                    (r_start_time r) (r_start_time r + r_duration_minutes r * usec_per_minute)
                    start_time ?e"
    if "r \<in> set (reservations db)" for r
  proof -
    from stored that have "same_day_window (r_start_time r) (r_duration_minutes r)"
      by (simp add: list_all_iff)
    then have "0 \<le> r_start_time r" "0 < r_duration_minutes r"
      "r_start_time r + r_duration_minutes r * usec_per_minute < usec_per_day"
      by (simp_all add: same_day_window_def)
    from overlap_of_same_day_windows [OF this r0 r1 r2] show ?thesis
      unfolding e by simp
  qed
  have same: "blocking_reservations db t d start_time ?e
              = competing_reservations db t d start_time duration_minutes" for t
    unfolding blocking_reservations_def competing_reservations_def assigned_to_def
    by (rule filter_cong [OF refl]) (simp add: test active_status_def)
  from get_available_tables_rows [OF e uniq, of party_size d] show ?thesis
    unfolding same .
qed

lemma dinner_windows_same_day:
  "same_day_window (hm 18 0) 90"
  "list_all (\<lambda>r. same_day_window (r_start_time r) (r_duration_minutes r))
     (reservations scenario_db)"
  by (simp_all add: same_day_window_def scenario_db_def party_of_three_def hm_def
        usec_per_minute_def usec_per_day_def)

theorem get_available_tables_same_day_witness:
  "assignments_unique scenario_db \<and> same_day_window (hm 18 0) 90
   \<and> list_all (\<lambda>r. same_day_window (r_start_time r) (r_duration_minutes r))
        (reservations scenario_db)
   \<and> map r_id (competing_reservations scenario_db table_a 739000 (hm 18 0) 90) = [10]
   \<and> map r_party_size (competing_reservations scenario_db table_b 739000 (hm 18 0) 90) = [3]
   \<and> (\<exists>rows. get_available_tables scenario_db 4 739000 (hm 18 0) 90 = Inr rows
         \<and> (\<exists>a \<in> set rows. table_row.truncate a = table_b)
         \<and> \<not> (\<exists>a \<in> set rows. table_row.truncate a = table_a))"
proof -
  obtain rows where rows: "get_available_tables scenario_db 4 739000 (hm 18 0) 90 = Inr rows"
    and iff: "\<And>t. (\<exists>a \<in> set rows. table_row.truncate a = t) \<longleftrightarrow>
                  t \<in> set (tables scenario_db)
                  \<and> t_min_capacity t \<le> 4 \<and> 4 \<le> t_max_capacity t
                  \<and> (\<not> t_is_shared t \<longrightarrow>
                       competing_reservations scenario_db t 739000 (hm 18 0) 90 = [])
                  \<and> (t_is_shared t \<longrightarrow>
                       t_max_capacity t
                         - (\<Sum>r\<leftarrow>competing_reservations scenario_db t 739000 (hm 18 0) 90.
                              r_party_size r)
                       \<ge> 4)"
    using get_available_tables_same_day [OF scenario_unique dinner_windows_same_day, of 4 739000]
    by blast
  have ca: "map r_id (competing_reservations scenario_db table_a 739000 (hm 18 0) 90) = [10]"
    and cb: "map r_party_size (competing_reservations scenario_db table_b 739000 (hm 18 0) 90)
             = [3]"
    by (simp_all add: competing_reservations_def half_open_overlap_def scenario_db_def
          table_a_def table_b_def party_of_three_def hm_def usec_per_minute_def)
  have b: "\<exists>a \<in> set rows. table_row.truncate a = table_b"
    unfolding iff
    by (simp add: competing_reservations_def half_open_overlap_def scenario_db_def
          table_a_def table_b_def party_of_three_def hm_def usec_per_minute_def)
  have a: "\<not> (\<exists>a \<in> set rows. table_row.truncate a = table_a)"
    unfolding iff
    by (simp add: competing_reservations_def half_open_overlap_def scenario_db_def
          table_a_def table_b_def party_of_three_def hm_def usec_per_minute_def)
  show ?thesis
    using rows a b ca cb scenario_unique dinner_windows_same_day by blast
qed

text \<open>
  Claim C10. The list \<open>get_available_tables\<close> returns is in ascending order of
  \<open>|min_capacity - party_size|\<close>, and rows that tie are in ascending order of table
  number: of any two rows, the earlier has the smaller distance, or the same distance
  and a table number that is not greater.
\<close>

theorem get_available_tables_sorted:
  assumes "get_available_tables db party_size d start_time duration_minutes = Inr rows"
      and "i < j" and "j < length rows"
  shows "\<bar>t_min_capacity (rows ! i) - party_size\<bar> < \<bar>t_min_capacity (rows ! j) - party_size\<bar>
         \<or> (\<bar>t_min_capacity (rows ! i) - party_size\<bar> = \<bar>t_min_capacity (rows ! j) - party_size\<bar>
            \<and> t_table_number (rows ! i) \<le> t_table_number (rows ! j))"
proof -
  define key where "key = (\<lambda>a :: available_table. (\<bar>t_min_capacity a - party_size\<bar>, t_table_number a))"
  have "sorted (map key rows)"
    using assms(1)
    by (auto simp: get_available_tables_def Let_def key_def split: sum.splits)
  then have "key (rows ! i) \<le> key (rows ! j)"
    using assms(2,3) by (simp add: sorted_iff_nth_mono)
  then show ?thesis
    by (auto simp: key_def less_eq_prod_def)
qed

lemma quiet_rows:
  "get_available_tables quiet_db 3 739000 (hm 18 0) 90
   = Inr [table_row.extend table_a (available_table.fields False 4),
          table_row.extend table_b (available_table.fields True 8)]"
  by (simp add: get_available_tables_def end_time_18_90 Let_def quiet_db_def scenario_db_def
          table_a_def table_b_def booked_tables_def overlapping_reservations_def
          sum_party_size_def table_row.extend_def less_eq_prod_def less_prod_def
          available_table.fields_def)

theorem get_available_tables_sorted_witness:
  "get_available_tables quiet_db 3 739000 (hm 18 0) 90
     = Inr [table_row.extend table_a (available_table.fields False 4),
            table_row.extend table_b (available_table.fields True 8)]
   \<and> (0::nat) < 1
   \<and> 1 < length [table_row.extend table_a (available_table.fields False 4),
                 table_row.extend table_b (available_table.fields True 8)]
   \<and> \<bar>t_min_capacity table_a - 3\<bar> = \<bar>t_min_capacity table_b - 3\<bar>
   \<and> t_table_number table_a \<le> t_table_number table_b"
proof -
  let ?rows = "[table_row.extend table_a (available_table.fields False 4),
                table_row.extend table_b (available_table.fields True 8)]"
  have len: "1 < length ?rows" by simp
  have dist: "\<bar>t_min_capacity table_a - 3\<bar> = \<bar>t_min_capacity table_b - 3\<bar>"
    by (simp add: table_a_def table_b_def)
  have "\<bar>t_min_capacity (?rows ! 0) - 3\<bar> < \<bar>t_min_capacity (?rows ! 1) - 3\<bar>
         \<or> (\<bar>t_min_capacity (?rows ! 0) - 3\<bar> = \<bar>t_min_capacity (?rows ! 1) - 3\<bar>
            \<and> t_table_number (?rows ! 0) \<le> t_table_number (?rows ! 1))"
    using get_available_tables_sorted [OF quiet_rows _ len, of 0] by simp
  then have "t_table_number table_a \<le> t_table_number table_b"
    using dist by (simp add: table_row.extend_def)
  then show ?thesis
    using quiet_rows dist by simp
qed

section \<open>Properties of the reservation lookup\<close>

text \<open>
  Claim C5. Called without a connection argument, \<open>get_reservation_by_id\<close> never
  acquires a connection from the pool: the default value of the parameter is the typing
  object, which is not None, so the call raises instead of returning the reservation.
  Hence \<open>update_reservation_status\<close>, its handler and the handler of the
  single-reservation GET, which call it that way, never return a reservation.
\<close>

theorem get_reservation_by_id_default_fails:
  "get_reservation_by_id db reservation_id default_conn
     = \<lparr>returned = Inl AttributeError, pool_acquired = False, conn_closed = False\<rparr>
   \<and> fst (update_reservation_status db reservation_id status) \<noteq> Inr (Some v)
   \<and> fst (main_update_reservation_status db reservation_id status) \<noteq> Inr v
   \<and> main_get_reservation db reservation_id = Inl AttributeError"
  by (simp add: get_reservation_by_id_def default_conn_def truthy_conn_def Let_def
        update_reservation_status_def main_get_reservation_def
        main_update_reservation_status_def)

section \<open>Properties of the booking transaction\<close>

lemma assign_tables_Inr:
  "assign_tables db rid tids = Inr db' \<Longrightarrow>
     db' = db\<lparr>table_assignments := table_assignments db @
                 map (\<lambda>t. \<lparr>ta_reservation_id = rid, ta_table_id = t\<rparr>) tids\<rparr>
     \<and> distinct tids
     \<and> set tids \<subseteq> t_id ` set (tables db)
     \<and> (\<forall>ta \<in> set (table_assignments db). ta_reservation_id ta = rid \<longrightarrow> ta_table_id ta \<notin> set tids)"
proof (induction tids arbitrary: db)
  case Nil
  then show ?case by simp
next
  case (Cons t tids)
  let ?db1 = "db\<lparr>table_assignments := table_assignments db @
                    [\<lparr>ta_reservation_id = rid, ta_table_id = t\<rparr>]\<rparr>"
  from Cons.prems have new: "\<not> list_ex (\<lambda>ta. ta_reservation_id ta = rid \<and> ta_table_id ta = t)
                                 (table_assignments db)"
    and known: "list_ex (\<lambda>x. t_id x = t) (tables db)"
    and rest: "assign_tables ?db1 rid tids = Inr db'"
    by (auto split: if_splits)
  from Cons.IH [OF rest] have
    shape: "db' = ?db1\<lparr>table_assignments := table_assignments ?db1 @
                 map (\<lambda>t. \<lparr>ta_reservation_id = rid, ta_table_id = t\<rparr>) tids\<rparr>"
    and d: "distinct tids"
    and sub: "set tids \<subseteq> t_id ` set (tables ?db1)"
    and old: "\<forall>ta \<in> set (table_assignments ?db1). ta_reservation_id ta = rid \<longrightarrow> ta_table_id ta \<notin> set tids"
    by blast+
  have t_new: "t \<notin> set tids" using old by simp
  have t_known: "t \<in> t_id ` set (tables db)"
    using known by (auto simp: list_ex_iff)
  have t_old: "\<forall>ta \<in> set (table_assignments db). ta_reservation_id ta = rid \<longrightarrow> ta_table_id ta \<noteq> t"
    using new by (auto simp: list_ex_iff)
  have c1: "db' = db\<lparr>table_assignments := table_assignments db @
                 map (\<lambda>t. \<lparr>ta_reservation_id = rid, ta_table_id = t\<rparr>) (t # tids)\<rparr>"
    unfolding shape by simp
  have c2: "distinct (t # tids)" using d t_new by simp
  have c3: "set (t # tids) \<subseteq> t_id ` set (tables db)" using sub t_known by simp
  have c4: "\<forall>ta \<in> set (table_assignments db).
              ta_reservation_id ta = rid \<longrightarrow> ta_table_id ta \<notin> set (t # tids)"
    using old t_old by simp
  show ?case by (intro conjI c1 c2 c3 c4)
qed

lemma find_as_filter:
  "find P xs = (case filter P xs of [] \<Rightarrow> None | x # _ \<Rightarrow> Some x)"
  by (induction xs) auto

lemma concat_all_empty: "(\<And>c. c \<in> set cs \<Longrightarrow> f c = []) \<Longrightarrow> concat (map f cs) = []"
  by (induction cs) auto

lemma join_row_other:
  "r_id (x::reservation_row) \<noteq> rid \<Longrightarrow>
   concat (map (\<lambda>c::customer_row. if r_customer_id x = c_id c
                     then if r_id x = rid then [(x, c)] else [] else []) cs) = []"
  by (rule concat_all_empty) simp

lemma join_rows_other:
  assumes "\<forall>x \<in> set (rs :: reservation_row list). r_id x \<noteq> rid"
  shows "concat (map (\<lambda>x. concat (map (\<lambda>c::customer_row. if r_customer_id x = c_id c
                  then if r_id x = rid then [(x, c)] else [] else []) cs)) rs) = []"
proof (rule concat_all_empty)
  fix x assume "x \<in> set rs"
  then have "r_id x \<noteq> rid" using assms by blast
  then show "concat (map (\<lambda>c::customer_row. if r_customer_id x = c_id c
                  then if r_id x = rid then [(x, c)] else [] else []) cs) = []"
    by (rule join_row_other)
qed

lemma join_row_this:
  "concat (map (\<lambda>c. if r_customer_id r = c_id c
                     then if r_id r = r_id r then [(r, c)] else [] else []) cs)
   = map (Pair r) (filter (\<lambda>c. c_id c = r_customer_id r) cs)"
  by (induction cs) (simp_all cong: if_cong)

lemma fetch_reservation_last:
  assumes "reservations db = rs @ [r]"
      and "\<forall>x \<in> set rs. r_id x \<noteq> r_id r"
      and "find (\<lambda>c. c_id c = r_customer_id r) (customers db) = Some c"
  shows "fetch_reservation db (r_id r)
         = Some \<lparr>rv_reservation = r, rv_customer = c,
                 rv_tables = [t. t \<leftarrow> tables db, ta \<leftarrow> table_assignments db,
                                 t_id t = ta_table_id ta, ta_reservation_id ta = r_id r]\<rparr>"
proof -
  obtain cs' where "filter (\<lambda>c. c_id c = r_customer_id r) (customers db) = c # cs'"
    using assms(3) unfolding find_as_filter by (auto split: list.splits)
  then show ?thesis
    unfolding fetch_reservation_def assms(1)
    by (simp add: join_rows_other [OF assms(2)] join_row_this)
qed

lemma find_append:
  "find P (xs @ ys) = (case find P xs of None \<Rightarrow> find P ys | Some x \<Rightarrow> Some x)"
  by (induction xs) auto

lemma find_by_distinct_key:
  "distinct (map f xs) \<Longrightarrow> x \<in> set xs \<Longrightarrow> find (\<lambda>y. f y = f x) xs = Some x"
proof (induction xs)
  case Nil
  then show ?case by simp
next
  case (Cons a xs)
  then show ?case by (cases "a = x") (auto simp: image_iff)
qed

lemmas booking_defs =
  create_reservation_def resolve_contact_def get_or_create_customer_def lookup_customer_def
  customer_values_error_def new_customer_row_def reservation_values_error_def
  insert_reservation_def new_reservation_row_def int32_def has_nul_def opt_has_nul_def
  fits_varchar_def opt_fits_varchar_def get_reservation_by_id_def truthy_conn_def truthy_def
  placeholder_email_def

lemma lookup_customer_Some:
  assumes "lookup_customer db cd = Inr (Some cid)"
  shows "\<exists>c \<in> set (customers db). c_id c = cid
           \<and> (truthy (cd_email cd) \<and> c_email c = cd_email cd
              \<or> truthy (cd_phone cd) \<and> c_phone c = cd_phone cd)"
proof (cases "truthy (cd_email cd)
              \<and> find (\<lambda>c. c_email c = cd_email cd) (customers db) \<noteq> None")
  case True
  then obtain c where c: "find (\<lambda>c. c_email c = cd_email cd) (customers db) = Some c"
    by blast
  then have "c \<in> set (customers db)" and "c_email c = cd_email cd"
    by (auto simp: find_Some_iff)
  moreover have "cid = c_id c"
    using assms True c by (simp add: lookup_customer_def Let_def split: if_splits)
  ultimately show ?thesis using True by blast
next
  case False
  then have by_phone: "truthy (cd_phone cd)"
    and "map_option c_id (find (\<lambda>c. c_phone c = cd_phone cd) (customers db)) = Some cid"
    using assms by (auto simp: lookup_customer_def Let_def split: if_splits)
  then obtain c where "find (\<lambda>c. c_phone c = cd_phone cd) (customers db) = Some c"
    and "c_id c = cid" by blast
  then have "c \<in> set (customers db)" and "c_phone c = cd_phone cd" and "c_id c = cid"
    by (auto simp: find_Some_iff)
  with by_phone show ?thesis by blast
qed



lemma get_or_create_customer_facts:
  assumes fresh: "uuids_fresh db" and goc: "get_or_create_customer db cd = Inr (cid, db1)"
  shows "tables db1 = tables db"
    and "reservations db1 = reservations db"
    and "table_assignments db1 = table_assignments db"
    and "restaurant_hours db1 = restaurant_hours db"
    and "special_hours db1 = special_hours db"
    and "next_uuid db \<le> next_uuid db1"
    and "\<exists>c. find (\<lambda>c. c_id c = cid) (customers db1) = Some c
              \<and> (lookup_customer db cd = Inr None \<and> c = new_customer_row (next_uuid db) cd
                   \<and> customers db1 = customers db @ [c] \<and> customer_values_error cd = None
                 \<or> lookup_customer db cd = Inr (Some cid) \<and> db1 = db \<and> c \<in> set (customers db)
                   \<and> (truthy (cd_email cd) \<and> c_email c = cd_email cd
                      \<or> truthy (cd_phone cd) \<and> c_phone c = cd_phone cd))"
proof -
  show "tables db1 = tables db" "reservations db1 = reservations db"
    "table_assignments db1 = table_assignments db" "restaurant_hours db1 = restaurant_hours db"
    "special_hours db1 = special_hours db" "next_uuid db \<le> next_uuid db1"
    using goc by (auto simp: get_or_create_customer_def split: sum.splits option.splits)
  from goc obtain found where found: "lookup_customer db cd = Inr found"
    by (auto simp: get_or_create_customer_def split: sum.splits)
  show "\<exists>c. find (\<lambda>c. c_id c = cid) (customers db1) = Some c
              \<and> (lookup_customer db cd = Inr None \<and> c = new_customer_row (next_uuid db) cd
                   \<and> customers db1 = customers db @ [c] \<and> customer_values_error cd = None
                 \<or> lookup_customer db cd = Inr (Some cid) \<and> db1 = db \<and> c \<in> set (customers db)
                   \<and> (truthy (cd_email cd) \<and> c_email c = cd_email cd
                      \<or> truthy (cd_phone cd) \<and> c_phone c = cd_phone cd))"
  proof (cases found)
    case None
    have old: "find (\<lambda>c. c_id c = next_uuid db) (customers db) = None"
      using fresh by (auto simp: uuids_fresh_def list_all_iff find_None_iff)
    from goc found None have ok: "customer_values_error cd = None"
      and cid: "cid = next_uuid db"
      and db1: "customers db1 = customers db @ [new_customer_row (next_uuid db) cd]"
      by (auto simp: get_or_create_customer_def split: option.splits)
    have "find (\<lambda>c. c_id c = cid) (customers db1) = Some (new_customer_row (next_uuid db) cd)"
      unfolding cid db1 find_append old by (simp add: new_customer_row_def)
    then show ?thesis using found None ok db1 by blast
  next
    case (Some k)
    then have eq: "cid = k" "db1 = db"
      using goc found by (auto simp: get_or_create_customer_def)
    from found Some have l: "lookup_customer db cd = Inr (Some cid)"
      using eq by simp
    from lookup_customer_Some [OF l] obtain c where
      c: "c \<in> set (customers db)" "c_id c = cid"
         "truthy (cd_email cd) \<and> c_email c = cd_email cd
          \<or> truthy (cd_phone cd) \<and> c_phone c = cd_phone cd"
      by blast
    have "distinct (map c_id (customers db))"
      using fresh by (simp add: uuids_fresh_def)
    from find_by_distinct_key [OF this c(1)]
    have "find (\<lambda>y. c_id y = cid) (customers db1) = Some c"
      unfolding c(2) eq(2) .
    then show ?thesis using l eq(2) c(1,3) by blast
  qed
qed

lemma create_reservation_customer:
  assumes "create_reservation md5 db cd rd tids = (Inr result, db')"
  shows "\<exists>cid db1. get_or_create_customer db (resolve_contact md5 cd (rd_party_size rd))
                     = Inr (cid, db1)"
    and "reservation_values_error rd = None"
  using assms
  by (auto simp: create_reservation_def insert_reservation_def Let_def
           split: sum.splits option.splits prod.splits)

lemma create_reservation_unfold:
  assumes "get_or_create_customer db (resolve_contact md5 cd (rd_party_size rd)) = Inr (cid, db1)"
      and "reservation_values_error rd = None"
  shows "create_reservation md5 db cd rd tids
         = (case assign_tables
                   (db1\<lparr>reservations := reservations db1 @
                          [new_reservation_row (next_uuid db1) cid rd],
                        next_uuid := next_uuid db1 + 1\<rparr>) (next_uuid db1) tids of
              Inl e \<Rightarrow> (Inl e, db)
            | Inr db3 \<Rightarrow> (Inr (fetch_reservation db3 (next_uuid db1)), db3))"
  using assms
  by (simp add: create_reservation_def insert_reservation_def get_reservation_by_id_def
        truthy_conn_def Let_def split: sum.splits)

lemma create_reservation_Inr:
  assumes fresh: "uuids_fresh db"
      and goc: "get_or_create_customer db (resolve_contact md5 cd (rd_party_size rd))
                = Inr (cid, db1)"
      and ok: "create_reservation md5 db cd rd tids = (Inr result, db')"
  shows "tables db' = tables db"
    and "reservations db' = reservations db @ [new_reservation_row (next_uuid db1) cid rd]"
    and "table_assignments db' = table_assignments db @
           map (\<lambda>t. \<lparr>ta_reservation_id = next_uuid db1, ta_table_id = t\<rparr>) tids"
    and "customers db' = customers db1"
    and "distinct tids"
    and "\<exists>c. find (\<lambda>c. c_id c = cid) (customers db1) = Some c
             \<and> result = Some \<lparr>rv_reservation = new_reservation_row (next_uuid db1) cid rd,
                   rv_customer = c,
                   rv_tables = [t. t \<leftarrow> tables db', ta \<leftarrow> table_assignments db',
                                   t_id t = ta_table_id ta,
                                   ta_reservation_id ta = next_uuid db1]\<rparr>"
proof -
  let ?r = "new_reservation_row (next_uuid db1) cid rd"
  let ?db2 = "db1\<lparr>reservations := reservations db1 @ [?r], next_uuid := next_uuid db1 + 1\<rparr>"
  note facts = get_or_create_customer_facts [OF fresh goc]
  note vals = create_reservation_customer(2) [OF ok]
  from ok obtain db3 where a: "assign_tables ?db2 (next_uuid db1) tids = Inr db3"
    and db': "db' = db3" and res: "result = fetch_reservation db3 (next_uuid db1)"
    unfolding create_reservation_unfold [OF goc vals] by (auto split: sum.splits)
  from assign_tables_Inr [OF a] have
    shape: "db3 = ?db2\<lparr>table_assignments := table_assignments ?db2 @
                 map (\<lambda>t. \<lparr>ta_reservation_id = next_uuid db1, ta_table_id = t\<rparr>) tids\<rparr>"
    and d: "distinct tids" by blast+
  show t: "tables db' = tables db"
    unfolding db' shape using facts(1) by simp
  show r: "reservations db' = reservations db @ [?r]"
    unfolding db' shape using facts(2) by simp
  show "table_assignments db' = table_assignments db @
           map (\<lambda>t. \<lparr>ta_reservation_id = next_uuid db1, ta_table_id = t\<rparr>) tids"
    unfolding db' shape using facts(3) by simp
  show c: "customers db' = customers db1"
    unfolding db' shape by simp
  show "distinct tids" by (rule d)
  from facts(7) obtain c where
    found: "find (\<lambda>c. c_id c = cid) (customers db1) = Some c"
    by blast
  have rid: "r_id ?r = next_uuid db1" and rcust: "r_customer_id ?r = cid"
    by (simp_all add: new_reservation_row_def)
  have old: "\<forall>x \<in> set (reservations db). r_id x \<noteq> r_id ?r"
    using fresh facts(6) unfolding rid by (auto simp: uuids_fresh_def list_all_iff)
  have found': "find (\<lambda>c. c_id c = r_customer_id ?r) (customers db') = Some c"
    unfolding rcust c by (rule found)
  have "fetch_reservation db' (r_id ?r)
         = Some \<lparr>rv_reservation = ?r, rv_customer = c,
                 rv_tables = [t. t \<leftarrow> tables db', ta \<leftarrow> table_assignments db',
                                 t_id t = ta_table_id ta, ta_reservation_id ta = r_id ?r]\<rparr>"
    by (rule fetch_reservation_last [OF r old found'])
  then have "result = Some \<lparr>rv_reservation = ?r, rv_customer = c,
                   rv_tables = [t. t \<leftarrow> tables db', ta \<leftarrow> table_assignments db',
                                   t_id t = ta_table_id ta,
                                   ta_reservation_id ta = next_uuid db1]\<rparr>"
    unfolding res db' [symmetric] rid by simp
  with found show "\<exists>c. find (\<lambda>c. c_id c = cid) (customers db1) = Some c
             \<and> result = Some \<lparr>rv_reservation = new_reservation_row (next_uuid db1) cid rd,
                   rv_customer = c,
                   rv_tables = [t. t \<leftarrow> tables db', ta \<leftarrow> table_assignments db',
                                   t_id t = ta_table_id ta,
                                   ta_reservation_id ta = next_uuid db1]\<rparr>"
    by blast
qed

lemma resolve_contact_email:
  assumes "\<not> truthy (cd_email cd)" and "\<not> truthy (cd_phone cd)"
  shows "cd_email (resolve_contact md5 cd p)
         = (if p < 6 then Some (''guest-'' @ take 8 (md5 (strip (lower (cd_name cd))))
                                @ ''@restaurant.local'')
            else cd_email cd)"
    and "cd_phone (resolve_contact md5 cd p) = cd_phone cd"
    and "cd_name (resolve_contact md5 cd p) = cd_name cd"
  using assms by (simp_all add: resolve_contact_def placeholder_email_def Let_def)

text \<open>
  The contact step of \<open>create_reservation\<close> and the helper \<open>generate_placeholder_contact\<close>
  synthesise the same email.
\<close>

lemma generate_placeholder_contact_agrees:
  assumes "\<not> truthy (cd_email cd)" and "\<not> truthy (cd_phone cd)"
  shows "cd_email (resolve_contact md5 cd p)
         = (case fst (generate_placeholder_contact md5 (cd_name cd) p) of
              Some e \<Rightarrow> Some e
            | None \<Rightarrow> cd_email cd)"
  using assms by (simp add: resolve_contact_def generate_placeholder_contact_def Let_def)

text \<open>
  The customer of a successful booking without contact details carries the email the
  contact step resolved.
\<close>

lemma contactless_customer_email:
  assumes none: "\<not> truthy (cd_email cd)" "\<not> truthy (cd_phone cd)"
      and fresh: "uuids_fresh db"
      and ok: "create_reservation md5 db cd rd tids = (Inr result, db')"
  shows "\<exists>view. result = Some view
           \<and> c_email (rv_customer view)
             = cd_email (resolve_contact md5 cd (rd_party_size rd))"
proof -
  let ?cd = "resolve_contact md5 cd (rd_party_size rd)"
  from create_reservation_customer(1) [OF ok] obtain cid db1 where
    goc: "get_or_create_customer db ?cd = Inr (cid, db1)"
    by blast
  from create_reservation_Inr(6) [OF fresh goc ok] obtain c where
    found: "find (\<lambda>c. c_id c = cid) (customers db1) = Some c"
    and res: "result = Some \<lparr>rv_reservation = new_reservation_row (next_uuid db1) cid rd,
                   rv_customer = c,
                   rv_tables = [t. t \<leftarrow> tables db', ta \<leftarrow> table_assignments db',
                                   t_id t = ta_table_id ta,
                                   ta_reservation_id ta = next_uuid db1]\<rparr>"
    by blast
  from get_or_create_customer_facts(7) [OF fresh goc] found have
    which: "c = new_customer_row (next_uuid db) ?cd
            \<or> truthy (cd_email ?cd) \<and> c_email c = cd_email ?cd
            \<or> truthy (cd_phone ?cd) \<and> c_phone c = cd_phone ?cd"
    by auto
  have phone: "\<not> truthy (cd_phone ?cd)"
    using none resolve_contact_email(2) [OF none] by simp
  have short: "map_option (take 200) (cd_email ?cd) = cd_email ?cd"
  proof (cases "rd_party_size rd < 6")
    case True
    then show ?thesis
      unfolding resolve_contact_email(1) [OF none] by simp
  next
    case False
    then have "cd_email ?cd = cd_email cd"
      unfolding resolve_contact_email(1) [OF none] by simp
    then show ?thesis
      using none(1) by (cases "cd_email cd") (simp_all add: truthy_def)
  qed
  have "c_email c = cd_email ?cd"
    using which phone short by (auto simp: new_customer_row_def)
  then show ?thesis using res by simp
qed

lemma capital_codes:
  "map (of_char :: char \<Rightarrow> nat) ''ABCDEFGHIJKLMNOPQRSTUVWXYZ'' = [65..<91]"
  by (simp add: upt_rec)

lemma small_codes:
  "map (of_char :: char \<Rightarrow> nat) ''abcdefghijklmnopqrstuvwxyz'' = [97..<123]"
  by (simp add: upt_rec)

lemma space_codes:
  "map (of_char :: char \<Rightarrow> nat)
     [CHR 0x09, CHR 0x0A, CHR 0x0B, CHR 0x0C, CHR 0x0D,
      CHR 0x1C, CHR 0x1D, CHR 0x1E, CHR 0x1F, CHR 0x20] = [9..<14] @ [28..<33]"
  by (simp add: upt_rec)

lemma mem_by_code:
  "c \<in> set cs \<longleftrightarrow> (of_char c :: nat) \<in> set (map of_char cs)"
  by (auto simp: image_iff)

lemma is_space_ascii_whitespace: "is_space c \<longleftrightarrow> ascii_whitespace c"
  unfolding is_space_def ascii_whitespace_def Let_def
  by (subst mem_by_code, subst space_codes) auto

lemma lower_char_code:
  "(of_char (lower_char c) :: nat)
   = (if 65 \<le> (of_char c :: nat) \<and> (of_char c :: nat) \<le> 90 then of_char c + 32 else of_char c)"
proof (cases "c \<in> set ''ABCDEFGHIJKLMNOPQRSTUVWXYZ''")
  case True
  let ?caps = "''ABCDEFGHIJKLMNOPQRSTUVWXYZ''" and ?smalls = "''abcdefghijklmnopqrstuvwxyz''"
  from True obtain i where i: "i < length ?caps" and c: "c = ?caps ! i"
    by (metis in_set_conv_nth)
  have len: "length ?caps = 26" "length ?smalls = 26" by simp_all
  have d: "distinct ?caps" by simp
  have "map_of (zip ?caps ?smalls) (?caps ! i) = Some (?smalls ! i)"
    using i by (intro map_of_zip_nth d) simp_all
  then have l: "lower_char c = ?smalls ! i"
    unfolding lower_char_def c by simp
  have "(of_char (?caps ! i) :: nat) = map of_char ?caps ! i"
    using i by (simp only: nth_map)
  moreover have "[65..<91] ! i = 65 + i"
    using i by (intro nth_upt) simp
  ultimately have cc: "(of_char c :: nat) = 65 + i"
    unfolding c capital_codes by (simp only:)
  have "(of_char (?smalls ! i) :: nat) = map of_char ?smalls ! i"
    using i by (simp only: nth_map len)
  moreover have "[97..<123] ! i = 97 + i"
    using i by (intro nth_upt) simp
  ultimately have "(of_char (lower_char c) :: nat) = 97 + i"
    unfolding l small_codes by (simp only:)
  with cc i show ?thesis by simp
next
  case False
  then have "c \<notin> fst ` set (zip ''ABCDEFGHIJKLMNOPQRSTUVWXYZ'' ''abcdefghijklmnopqrstuvwxyz'')"
    by (auto dest: set_zip_leftD)
  then have "map_of (zip ''ABCDEFGHIJKLMNOPQRSTUVWXYZ'' ''abcdefghijklmnopqrstuvwxyz'') c = None"
    by (rule map_of_eq_None_iff [THEN iffD2])
  then have l: "lower_char c = c" by (simp add: lower_char_def)
  have "(of_char c :: nat) \<notin> set (map of_char ''ABCDEFGHIJKLMNOPQRSTUVWXYZ'')"
    using False by (subst (asm) mem_by_code)
  then have "(of_char c :: nat) \<notin> {65..<91}"
    unfolding capital_codes set_upt .
  then have "\<not> (65 \<le> (of_char c :: nat) \<and> (of_char c :: nat) \<le> 90)"
    by auto
  with l show ?thesis by simp
qed

lemma lower_char_lowercase_of: "lowercase_of c c' \<Longrightarrow> lower_char c = c'"
proof -
  assume "lowercase_of c c'"
  then have "(of_char (lower_char c) :: nat) = of_char c'"
    unfolding lowercase_of_def Let_def lower_char_code by (auto split: if_splits)
  then show ?thesis by simp
qed

lemma lower_lowercase_of: "list_all2 lowercase_of m core \<Longrightarrow> lower m = core"
  unfolding lower_def
  by (induction rule: list_all2_induct) (simp_all add: lower_char_lowercase_of)

lemma lower_char_whitespace: "ascii_whitespace c \<Longrightarrow> lower_char c = c"
  by (rule lower_char_lowercase_of) (auto simp: lowercase_of_def ascii_whitespace_def Let_def)

lemma lower_whitespace: "list_all ascii_whitespace l \<Longrightarrow> lower l = l"
  unfolding lower_def by (induction l) (simp_all add: lower_char_whitespace)

lemma lower_char_keeps_other:
  assumes "\<not> ascii_whitespace c"
  shows "\<not> ascii_whitespace (lower_char c)"
  using assms unfolding ascii_whitespace_def Let_def lower_char_code by (auto split: if_splits)

lemma strip_trims:
  assumes "list_all is_space l" and "list_all is_space r"
      and "core = [] \<or> \<not> is_space (hd core) \<and> \<not> is_space (last core)"
  shows "strip (l @ core @ r) = core"
proof (cases "core = []")
  case True
  have "\<forall>x \<in> set (l @ r). is_space x"
    using assms(1,2) by (auto simp: list_all_iff)
  then have e: "dropWhile is_space (l @ r) = []"
    by (simp only: dropWhile_eq_Nil_conv)
  show ?thesis unfolding strip_def True append_Nil e by simp
next
  case False
  with assms(3) have h: "\<not> is_space (hd core)" and t: "\<not> is_space (last core)" by simp_all
  have "dropWhile is_space (l @ core @ r) = dropWhile is_space (core @ r)"
    using assms(1) by (intro dropWhile_append2) (simp add: list_all_iff)
  also have "\<dots> = core @ r"
    using False h by (cases core) simp_all
  finally have one: "dropWhile is_space (l @ core @ r) = core @ r" .
  have "dropWhile is_space (rev r @ rev core) = dropWhile is_space (rev core)"
    using assms(2) by (intro dropWhile_append2) (simp add: list_all_iff)
  also have "\<dots> = rev core"
    using False t by (cases "rev core") (simp_all add: last_rev [symmetric] hd_rev)
  finally show ?thesis
    unfolding strip_def one by simp
qed

lemma strip_lower_trimmed:
  assumes "list_all ascii_whitespace l" and "list_all ascii_whitespace r"
      and "m = [] \<or> \<not> ascii_whitespace (hd m) \<and> \<not> ascii_whitespace (last m)"
      and "list_all2 lowercase_of m core"
  shows "strip (lower (l @ m @ r)) = core"
proof -
  have low: "lower (l @ m @ r) = l @ core @ r"
    using lower_whitespace [OF assms(1)] lower_whitespace [OF assms(2)]
          lower_lowercase_of [OF assms(4)]
    by (simp add: lower_def)
  have core: "core = map lower_char m"
    using lower_lowercase_of [OF assms(4)] by (simp add: lower_def)
  have ends: "core = [] \<or> \<not> is_space (hd core) \<and> \<not> is_space (last core)"
  proof (cases "m = []")
    case True
    then show ?thesis using core by simp
  next
    case False
    with assms(3) have "\<not> ascii_whitespace (hd m)" "\<not> ascii_whitespace (last m)" by simp_all
    then have "\<not> ascii_whitespace (lower_char (hd m))" "\<not> ascii_whitespace (lower_char (last m))"
      by (simp_all add: lower_char_keeps_other)
    then show ?thesis
      unfolding core is_space_ascii_whitespace using False by (simp add: hd_map last_map)
  qed
  have "list_all is_space l" "list_all is_space r"
    using assms(1,2) by (simp_all add: list_all_iff is_space_ascii_whitespace)
  from strip_trims [OF this ends] show ?thesis unfolding low .
qed

text \<open>
  Claim C8. For a booking whose customer data has neither an email nor a phone and
  whose name is ASCII text, a successful \<open>create_reservation\<close> returns the reservation
  with its customer, and: for a party of fewer than 6, the customer's email is
  \<open>guest-\<close>, the first 8 characters of the hex digest of the lower-cased, trimmed
  name, and \<open>@restaurant.local\<close>; for a party of 6 or more the email is the one
  supplied, which is absent. The lower-cased, trimmed name is \<open>core\<close>: the name is
  whitespace, then \<open>middle\<close>, which neither starts nor ends with whitespace, then
  whitespace, and \<open>core\<close> is \<open>middle\<close> with every capital letter replaced by its small
  one. Every name with the same \<open>core\<close> has the same placeholder email.
\<close>

theorem create_reservation_placeholder_email:
  assumes "\<not> truthy (cd_email cd)" and "\<not> truthy (cd_phone cd)"
      and "uuids_fresh db"
      and "create_reservation md5 db cd rd tids = (Inr result, db')"
      and "ascii_text (cd_name cd)"
      and "cd_name cd = left @ middle @ right"
      and "list_all ascii_whitespace left" and "list_all ascii_whitespace right"
      and "middle = [] \<or> \<not> ascii_whitespace (hd middle) \<and> \<not> ascii_whitespace (last middle)"
      and "list_all2 lowercase_of middle core"
  shows "\<exists>view. result = Some view
           \<and> (rd_party_size rd < 6 \<longrightarrow>
                c_email (rv_customer view)
                = Some (''guest-'' @ take 8 (md5 core) @ ''@restaurant.local''))
           \<and> (rd_party_size rd \<ge> 6 \<longrightarrow>
                c_email (rv_customer view) = cd_email cd \<and> \<not> truthy (c_email (rv_customer view)))
           \<and> (\<forall>left' middle' right'.
                  ascii_text (left' @ middle' @ right')
                  \<and> list_all ascii_whitespace left' \<and> list_all ascii_whitespace right'
                  \<and> (middle' = [] \<or> \<not> ascii_whitespace (hd middle')
                                     \<and> \<not> ascii_whitespace (last middle'))
                  \<and> list_all2 lowercase_of middle' core
                  \<longrightarrow> placeholder_email md5 (left' @ middle' @ right')
                      = ''guest-'' @ take 8 (md5 core) @ ''@restaurant.local'')"
proof -
  let ?cd = "resolve_contact md5 cd (rd_party_size rd)"
  have core: "strip (lower (cd_name cd)) = core"
    unfolding assms(6) by (rule strip_lower_trimmed [OF assms(7-10)])
  from contactless_customer_email [OF assms(1-4)] obtain view where
    res: "result = Some view" and mail: "c_email (rv_customer view) = cd_email ?cd"
    by blast
  have "c_email (rv_customer view)
        = (if rd_party_size rd < 6
           then Some (''guest-'' @ take 8 (md5 core) @ ''@restaurant.local'')
           else cd_email cd)"
    unfolding mail resolve_contact_email(1) [OF assms(1,2)] core ..
  moreover have "placeholder_email md5 (l @ m @ r)
                 = ''guest-'' @ take 8 (md5 core) @ ''@restaurant.local''"
    if "list_all ascii_whitespace l" "list_all ascii_whitespace r"
       "m = [] \<or> \<not> ascii_whitespace (hd m) \<and> \<not> ascii_whitespace (last m)"
       "list_all2 lowercase_of m core" for l m r
    unfolding placeholder_email_def strip_lower_trimmed [OF that] ..
  ultimately show ?thesis
    using res assms(1) by simp
qed

lemma walk_in_no_contact: "\<not> truthy (cd_email walk_in)" "\<not> truthy (cd_phone walk_in)"
  by (simp_all add: truthy_def walk_in_def)

lemma quiet_db_fresh: "uuids_fresh quiet_db"
  by (simp add: uuids_fresh_def quiet_db_def scenario_db_def guest_def)

lemma walk_in_name:
  "ascii_text (cd_name walk_in)"
  "cd_name walk_in = ''  '' @ ''Alice Smith'' @ '' ''"
  "list_all ascii_whitespace ''  ''"
  "list_all ascii_whitespace '' ''"
  "''Alice Smith'' = [] \<or> \<not> ascii_whitespace (hd ''Alice Smith'')
                         \<and> \<not> ascii_whitespace (last ''Alice Smith'')"
  "list_all2 lowercase_of ''Alice Smith'' ''alice smith''"
  by (simp_all add: walk_in_def ascii_text_def ascii_whitespace_def lowercase_of_def)

lemma spelling_digest_alice: "take 8 (spelling_digest ''alice smith'') = ''616c6963''"
  by (simp add: spelling_digest_def hex_digit_def)

lemma walk_in_booking_succeeds:
  "\<exists>result db'. create_reservation spelling_digest quiet_db walk_in (dinner 3) [2]
                  = (Inr result, db')"
  by (simp add: booking_defs spelling_digest_def hex_digit_def
        strip_def lower_def lower_char_def is_space_def walk_in_def dinner_def quiet_db_def scenario_db_def table_a_def table_b_def
        guest_def Let_def split: sum.splits)

theorem create_reservation_placeholder_email_witness:
  "\<not> truthy (cd_email walk_in) \<and> \<not> truthy (cd_phone walk_in) \<and> uuids_fresh quiet_db
   \<and> ascii_text (cd_name walk_in)
   \<and> cd_name walk_in = ''  '' @ ''Alice Smith'' @ '' ''
   \<and> list_all ascii_whitespace ''  '' \<and> list_all ascii_whitespace '' ''
   \<and> \<not> ascii_whitespace (hd ''Alice Smith'') \<and> \<not> ascii_whitespace (last ''Alice Smith'')
   \<and> list_all2 lowercase_of ''Alice Smith'' ''alice smith''
   \<and> (\<exists>view db'. create_reservation spelling_digest quiet_db walk_in (dinner 3) [2]
                     = (Inr (Some view), db')
          \<and> c_email (rv_customer view) = Some ''guest-616c6963@restaurant.local'')"
proof -
  obtain result db' where
    ok: "create_reservation spelling_digest quiet_db walk_in (dinner 3) [2] = (Inr result, db')"
    using walk_in_booking_succeeds by blast
  have small: "rd_party_size (dinner 3) < 6" by (simp add: dinner_def)
  from create_reservation_placeholder_email
         [OF walk_in_no_contact quiet_db_fresh ok walk_in_name]
  obtain view where "result = Some view"
    and "c_email (rv_customer view)
         = Some (''guest-'' @ take 8 (spelling_digest ''alice smith'') @ ''@restaurant.local'')"
    using small by blast
  then have "\<exists>view db'. create_reservation spelling_digest quiet_db walk_in (dinner 3) [2]
                     = (Inr (Some view), db')
          \<and> c_email (rv_customer view) = Some ''guest-616c6963@restaurant.local''"
    using ok unfolding spelling_digest_alice by simp
  moreover have "\<not> ascii_whitespace (hd ''Alice Smith'')"
    "\<not> ascii_whitespace (last ''Alice Smith'')"
    using walk_in_name(5) by simp_all
  ultimately show ?thesis
    using walk_in_no_contact quiet_db_fresh walk_in_name(1-4,6) by blast
qed












section \<open>Properties of tables and chairs\<close>

lemma insert_chairs_Inr:
  "insert_chairs db table_id n = Inr db' \<Longrightarrow>
     tables db' = tables db
     \<and> (\<exists>new. chairs db' = chairs db @ new \<and> length new = n
              \<and> (\<forall>c \<in> set new. ch_table_id c = table_id))"
proof (induction n arbitrary: db)
  case 0
  then show ?case by simp
next
  case (Suc n)
  let ?c = "\<lparr>ch_id = next_uuid db, ch_table_id = table_id, ch_is_assigned = True,
             ch_created_at = next_uuid db\<rparr>"
  let ?db1 = "db\<lparr>chairs := chairs db @ [?c], next_uuid := next_uuid db + 1\<rparr>"
  from Suc.prems have rest: "insert_chairs ?db1 table_id n = Inr db'"
    by (simp split: if_splits)
  from Suc.IH [OF rest] obtain new where
    t: "tables db' = tables ?db1" and c: "chairs db' = chairs ?db1 @ new"
    and l: "length new = n" and a: "\<forall>c \<in> set new. ch_table_id c = table_id"
    by blast
  have "chairs db' = chairs db @ (?c # new)" using c by simp
  moreover have "length (?c # new) = Suc n" using l by simp
  moreover have "\<forall>c \<in> set (?c # new). ch_table_id c = table_id" using a by simp
  moreover have "tables db' = tables db" using t by simp
  ultimately show ?case by blast
qed

lemma delete_chairs_chairs:
  "chairs (delete_chairs db cs) = filter (\<lambda>c. ch_id c \<notin> ch_id ` set cs) (chairs db)"
  by (induction cs arbitrary: db) (auto intro: filter_cong)

lemma delete_chairs_tables: "tables (delete_chairs db cs) = tables db"
  by (induction cs arbitrary: db) auto

lemma filter_out_dropped:
  assumes "distinct (map f xs)"
  shows "filter (\<lambda>x. f x \<notin> f ` set (drop k xs)) xs = take k xs"
proof -
  have d: "distinct (map f (take k xs) @ map f (drop k xs))"
    using assms by (metis append_take_drop_id map_append)
  have keep: "filter (\<lambda>x. f x \<notin> f ` set (drop k xs)) (take k xs) = take k xs"
    using d by (auto simp: filter_id_conv)
  have lose: "filter (\<lambda>x. f x \<notin> f ` set (drop k xs)) (drop k xs) = []"
    by (auto simp: filter_empty_conv)
  have "filter (\<lambda>x. f x \<notin> f ` set (drop k xs)) (take k xs @ drop k xs) = take k xs"
    unfolding filter_append keep lose by simp
  then show ?thesis by simp
qed

lemma find_updated_row:
  assumes "\<And>t. t_id (g t) = t_id (t :: table_row)"
  shows "find (\<lambda>t. t_id t = k) (map (\<lambda>t. if t_id t = k then g t else t) ts)
         = map_option g (find (\<lambda>t. t_id t = k) ts)"
  by (induction ts) (auto simp: assms)

lemma set_fields_id: "t_id (set_fields table_data t) = t_id t"
  by (simp add: set_fields_def)

lemma create_table_chairs:
  assumes fresh: "chairs_fresh db"
      and ok: "create_table db td = (Inr t, db')"
      and nonneg: "0 \<le> td_max_capacity td"
  shows "t_max_capacity t = td_max_capacity td"
    and "int (length (table_chairs db' (t_id t))) = td_max_capacity td"
proof -
  let ?t = "\<lparr>t_id = next_uuid db, t_table_number = td_table_number td,
             t_min_capacity = td_min_capacity td, t_max_capacity = td_max_capacity td,
             t_is_shared = td_is_shared td, t_location = td_location td\<rparr>"
  let ?db1 = "db\<lparr>tables := tables db @ [?t], next_uuid := next_uuid db + 1\<rparr>"
  from ok have t: "t = ?t"
    and ins: "insert_chairs ?db1 (next_uuid db) (nat (td_max_capacity td)) = Inr db'"
    by (auto simp: create_table_def Let_def split: if_splits sum.splits)
  show "t_max_capacity t = td_max_capacity td" unfolding t by simp
  from insert_chairs_Inr [OF ins] obtain new where
    c: "chairs db' = chairs ?db1 @ new" and l: "length new = nat (td_max_capacity td)"
    and a: "\<forall>c \<in> set new. ch_table_id c = next_uuid db"
    by blast
  have none: "filter (\<lambda>c. ch_table_id c = next_uuid db) (chairs db) = []"
    using fresh by (auto simp: chairs_fresh_def list_all_iff filter_empty_conv)
  have all: "filter (\<lambda>c. ch_table_id c = next_uuid db) new = new"
    using a by (simp add: filter_id_conv)
  have "table_chairs db' (t_id t) = new"
    unfolding table_chairs_def t c using none all by simp
  then show "int (length (table_chairs db' (t_id t))) = td_max_capacity td"
    using l nonneg by simp
qed

lemma update_table_chairs:
  assumes fresh: "chairs_fresh db"
      and perm: "permutes_rows row_order"
      and ok: "update_table row_order db table_id ud = (Inr (Some t), db')"
      and cap: "tu_max_capacity ud = Some m"
      and nonneg: "0 \<le> m"
  shows "t_max_capacity t = m"
    and "int (length (table_chairs db' table_id)) = m"
    and "m \<le> int (length (table_chairs db table_id)) \<Longrightarrow>
           mset (table_chairs db' table_id)
           = mset (take (nat m) (row_order (table_chairs db table_id)))"
    and "int (length (table_chairs db table_id)) \<le> m \<Longrightarrow>
           \<exists>new. table_chairs db' table_id = table_chairs db table_id @ new
                 \<and> int (length new) = m - int (length (table_chairs db table_id))"
proof -
  let ?db1 = "db\<lparr>tables := map (\<lambda>t. if t_id t = table_id then set_fields ud t else t) (tables db)\<rparr>"
  let ?cur = "table_chairs db table_id"
  let ?rows = "row_order ?cur"
  have rows: "mset ?rows = mset ?cur"
    using perm by (simp add: permutes_rows_def)
  have len: "length ?rows = length ?cur"
    by (rule mset_eq_length [OF rows])
  have cur1: "table_chairs ?db1 table_id = ?cur"
    by (simp add: table_chairs_def)
  have rec: "find (\<lambda>t. t_id t = table_id) (tables ?db1)
             = map_option (set_fields ud) (find (\<lambda>t. t_id t = table_id) (tables db))"
    using find_updated_row [of "set_fields ud" table_id "tables db"]
    by (simp add: set_fields_id)
  from ok have branch:
    "(int (length ?cur) < m \<and> insert_chairs ?db1 table_id (nat (m - int (length ?cur))) = Inr db')
     \<or> (int (length ?cur) > m \<and> db' = delete_chairs ?db1 (slice_from ?rows m))
     \<or> (int (length ?cur) = m \<and> db' = ?db1)"
    and found: "find (\<lambda>t. t_id t = table_id) (tables ?db1) = Some t"
    unfolding update_table_def Let_def cap cur1 len
    by (auto split: if_splits sum.splits)
  from found rec have "map_option (set_fields ud) (find (\<lambda>t. t_id t = table_id) (tables db)) = Some t"
    by simp
  then obtain t0 where "t = set_fields ud t0"
    by (auto simp: map_option_case split: option.splits)
  then show "t_max_capacity t = m"
    using cap by (simp add: set_fields_def)
  have "distinct (map ch_id ?cur)"
    using fresh by (simp add: chairs_fresh_def table_chairs_def distinct_map_filter)
  moreover have "mset (map ch_id ?rows) = mset (map ch_id ?cur)"
    using rows by (metis mset_map)
  ultimately have dist: "distinct (map ch_id ?rows)"
    by (metis mset_eq_imp_distinct_iff)
  have grow: "\<exists>new. table_chairs db' table_id = ?cur @ new
                    \<and> int (length new) = m - int (length ?cur)"
    if "int (length ?cur) < m"
      and ins: "insert_chairs ?db1 table_id (nat (m - int (length ?cur))) = Inr db'"
  proof -
    from insert_chairs_Inr [OF ins] obtain new where
      c: "chairs db' = chairs ?db1 @ new" and l: "length new = nat (m - int (length ?cur))"
      and a: "\<forall>c \<in> set new. ch_table_id c = table_id"
      by blast
    have "filter (\<lambda>c. ch_table_id c = table_id) new = new"
      using a by (simp add: filter_id_conv)
    then have "table_chairs db' table_id = ?cur @ new"
      unfolding table_chairs_def c by simp
    then show ?thesis using l that(1) by auto
  qed
  have shrink: "mset (table_chairs db' table_id) = mset (take (nat m) ?rows)"
    if "int (length ?cur) > m" and del: "db' = delete_chairs ?db1 (slice_from ?rows m)"
  proof -
    have sl: "slice_from ?rows m = drop (nat m) ?rows"
      using nonneg by (simp add: slice_from_def)
    define gone where "gone = ch_id ` set (drop (nat m) ?rows)"
    have "chairs db' = filter (\<lambda>c. ch_id c \<notin> gone) (chairs db)"
      unfolding del delete_chairs_chairs sl gone_def by simp
    then have "table_chairs db' table_id = filter (\<lambda>c. ch_id c \<notin> gone) ?cur"
      unfolding table_chairs_def by (auto intro: filter_cong)
    then have "mset (table_chairs db' table_id) = filter_mset (\<lambda>c. ch_id c \<notin> gone) (mset ?cur)"
      by simp
    also have "\<dots> = mset (filter (\<lambda>c. ch_id c \<notin> gone) ?rows)"
      unfolding rows [symmetric] by simp
    also have "\<dots> = mset (take (nat m) ?rows)"
      unfolding gone_def filter_out_dropped [OF dist] ..
    finally show ?thesis .
  qed
  have same: "mset (table_chairs db' table_id) = mset (take (nat m) ?rows)"
    if "int (length ?cur) = m" and "db' = ?db1"
    using that cur1 len rows by simp
  have count: "int (length (take (nat m) ?rows)) = m" if "m \<le> int (length ?cur)"
    using that nonneg len by simp
  show "int (length (table_chairs db' table_id)) = m"
    using branch
  proof (elim disjE conjE)
    assume "int (length ?cur) < m"
      and "insert_chairs ?db1 table_id (nat (m - int (length ?cur))) = Inr db'"
    from grow [OF this] show ?thesis by auto
  next
    assume a: "m < int (length ?cur)" and "db' = delete_chairs ?db1 (slice_from ?rows m)"
    from shrink [OF this] have "length (table_chairs db' table_id) = length (take (nat m) ?rows)"
      by (rule mset_eq_length)
    then show ?thesis using count a by simp
  next
    assume "int (length ?cur) = m" and "db' = ?db1"
    then show ?thesis using cur1 by simp
  qed
  show "mset (table_chairs db' table_id) = mset (take (nat m) ?rows)"
    if "m \<le> int (length ?cur)"
    using branch shrink same that by (elim disjE conjE) simp_all
  show "\<exists>new. table_chairs db' table_id = ?cur @ new
             \<and> int (length new) = m - int (length ?cur)" if "int (length ?cur) \<le> m"
    using branch grow that cur1 by (elim disjE) auto
qed

lemma update_table_without_capacity:
  assumes ok: "update_table row_order db table_id ud = (Inr (Some u), db')"
      and cap: "tu_max_capacity ud = None"
  shows "table_chairs db' table_id = table_chairs db table_id"
    and "\<exists>t0 \<in> set (tables db). t_id t0 = table_id \<and> t_max_capacity u = t_max_capacity t0"
proof -
  let ?db1 = "db\<lparr>tables := map (\<lambda>t. if t_id t = table_id then set_fields ud t else t) (tables db)\<rparr>"
  from ok have db': "db' = ?db1"
    and found: "find (\<lambda>t. t_id t = table_id) (tables ?db1) = Some u"
    unfolding update_table_def Let_def cap by (auto split: if_splits)
  show "table_chairs db' table_id = table_chairs db table_id"
    unfolding db' by (simp add: table_chairs_def)
  have "find (\<lambda>t. t_id t = table_id) (tables ?db1)
        = map_option (set_fields ud) (find (\<lambda>t. t_id t = table_id) (tables db))"
    using find_updated_row [of "set_fields ud" table_id "tables db"]
    by (simp add: set_fields_id)
  with found have "map_option (set_fields ud) (find (\<lambda>t. t_id t = table_id) (tables db)) = Some u"
    by simp
  then obtain t0 where t0: "find (\<lambda>t. t_id t = table_id) (tables db) = Some t0"
    and u: "u = set_fields ud t0"
    by (auto simp: map_option_case split: option.splits)
  from t0 have "t0 \<in> set (tables db)" and "t_id t0 = table_id"
    by (auto simp: find_Some_iff)
  moreover have "t_max_capacity u = t_max_capacity t0"
    unfolding u using cap by (simp add: set_fields_def)
  ultimately show "\<exists>t0 \<in> set (tables db). t_id t0 = table_id \<and> t_max_capacity u = t_max_capacity t0"
    by blast
qed

lemma main_update_table_chairs:
  assumes fresh: "chairs_fresh db"
      and perm: "permutes_rows row_order"
      and ok: "main_update_table row_order db table_id td = (Inr w, db')"
      and nonneg: "0 \<le> td_max_capacity td"
  shows "t_max_capacity w = td_max_capacity td"
    and "int (length (table_chairs db' table_id)) = td_max_capacity td"
proof -
  let ?ud = "\<lparr>tu_table_number = Some (td_table_number td),
              tu_min_capacity = Some (td_min_capacity td),
              tu_max_capacity = Some (td_max_capacity td),
              tu_is_shared = Some (td_is_shared td),
              tu_location = Some (td_location td)\<rparr>"
  from ok have upd: "update_table row_order db table_id ?ud = (Inr (Some w), db')"
    unfolding main_update_table_def
    by (auto split: prod.splits sum.splits option.splits)
  have cap: "tu_max_capacity ?ud = Some (td_max_capacity td)" by simp
  show "t_max_capacity w = td_max_capacity td"
    by (rule update_table_chairs(1) [OF fresh perm upd cap nonneg])
  show "int (length (table_chairs db' table_id)) = td_max_capacity td"
    by (rule update_table_chairs(2) [OF fresh perm upd cap nonneg])
qed

text \<open>
  The counts hold whatever order the database returns the chairs in. Creating a table with a maximum capacity of N (not negative) stores exactly N
  chairs for it. Updating the maximum capacity of a table to M (not negative) leaves
  it with exactly M chairs: when it had more, the first M of the rows the SELECT
  returned remain; when it had fewer, the chairs it had remain and exactly the
  difference is added. An update that does not carry the maximum capacity changes
  neither the chairs of the table nor its maximum capacity, and the handler of the
  update always carries it.
\<close>

lemma chair_count_equals_max_capacity:
  assumes "chairs_fresh db" and "permutes_rows row_order"
  shows "(create_table db td = (Inr t, db') \<and> 0 \<le> td_max_capacity td \<longrightarrow>
            t_max_capacity t = td_max_capacity td
            \<and> int (length (table_chairs db' (t_id t))) = t_max_capacity t)
       \<and> (update_table row_order db table_id ud = (Inr (Some u), db'')
           \<and> tu_max_capacity ud = Some m \<and> 0 \<le> m \<longrightarrow>
            t_max_capacity u = m
            \<and> int (length (table_chairs db'' table_id)) = t_max_capacity u
            \<and> (m \<le> int (length (table_chairs db table_id)) \<longrightarrow>
                 mset (table_chairs db'' table_id)
                 = mset (take (nat m) (row_order (table_chairs db table_id))))
            \<and> (int (length (table_chairs db table_id)) \<le> m \<longrightarrow>
                 (\<exists>new. table_chairs db'' table_id = table_chairs db table_id @ new
                        \<and> int (length new) = m - int (length (table_chairs db table_id)))))
       \<and> (update_table row_order db table_id ud = (Inr (Some u), db'')
           \<and> tu_max_capacity ud = None \<longrightarrow>
            table_chairs db'' table_id = table_chairs db table_id
            \<and> (\<exists>t0 \<in> set (tables db). t_id t0 = table_id
                                         \<and> t_max_capacity u = t_max_capacity t0))
       \<and> (main_update_table row_order db table_id td = (Inr w, db3)
           \<and> 0 \<le> td_max_capacity td \<longrightarrow>
            t_max_capacity w = td_max_capacity td
            \<and> int (length (table_chairs db3 table_id)) = t_max_capacity w)"
proof -
  have created: "t_max_capacity t = td_max_capacity td
            \<and> int (length (table_chairs db' (t_id t))) = t_max_capacity t"
    if "create_table db td = (Inr t, db') \<and> 0 \<le> td_max_capacity td"
    using create_table_chairs [OF assms(1)] that by metis
  have resized: "t_max_capacity u = m
            \<and> int (length (table_chairs db'' table_id)) = t_max_capacity u
            \<and> (m \<le> int (length (table_chairs db table_id)) \<longrightarrow>
                 mset (table_chairs db'' table_id)
                 = mset (take (nat m) (row_order (table_chairs db table_id))))
            \<and> (int (length (table_chairs db table_id)) \<le> m \<longrightarrow>
                 (\<exists>new. table_chairs db'' table_id = table_chairs db table_id @ new
                        \<and> int (length new) = m - int (length (table_chairs db table_id))))"
    if b: "update_table row_order db table_id ud = (Inr (Some u), db'')
           \<and> tu_max_capacity ud = Some m \<and> 0 \<le> m"
  proof -
    from b have ok: "update_table row_order db table_id ud = (Inr (Some u), db'')"
      and cap: "tu_max_capacity ud = Some m" and nonneg: "0 \<le> m"
      by blast+
    note facts = update_table_chairs [OF assms ok cap nonneg]
    have "int (length (table_chairs db'' table_id)) = t_max_capacity u"
      using facts(1,2) by simp
    then show ?thesis
      using facts(1,3,4) by blast
  qed
  have untouched: "table_chairs db'' table_id = table_chairs db table_id
            \<and> (\<exists>t0 \<in> set (tables db). t_id t0 = table_id
                                         \<and> t_max_capacity u = t_max_capacity t0)"
    if c: "update_table row_order db table_id ud = (Inr (Some u), db'')
           \<and> tu_max_capacity ud = None"
  proof -
    from c have ok: "update_table row_order db table_id ud = (Inr (Some u), db'')"
      and cap: "tu_max_capacity ud = None"
      by blast+
    show ?thesis
      using update_table_without_capacity(1) [OF ok cap]
        update_table_without_capacity(2) [OF ok cap]
      by (rule conjI)
  qed
  have handler: "t_max_capacity w = td_max_capacity td
            \<and> int (length (table_chairs db3 table_id)) = t_max_capacity w"
    if "main_update_table row_order db table_id td = (Inr w, db3) \<and> 0 \<le> td_max_capacity td"
    using main_update_table_chairs [OF assms, of table_id td w db3] that by simp
  show ?thesis
    using created resized untouched handler by blast
qed

lemma empty_database_fresh: "chairs_fresh empty_database"
  by (simp add: chairs_fresh_def empty_database_def)

lemma four_top_created:
  "\<exists>t. create_table empty_database four_top = (Inr t, four_top_db) \<and> t_id t = 1"
  by (simp add: four_top_db_def create_table_def empty_database_def four_top_def Let_def
        numeral_eq_Suc)

lemma four_top_db_chairs:
  "chairs four_top_db =
     [\<lparr>ch_id = 2, ch_table_id = 1, ch_is_assigned = True, ch_created_at = 2\<rparr>,
      \<lparr>ch_id = 3, ch_table_id = 1, ch_is_assigned = True, ch_created_at = 3\<rparr>,
      \<lparr>ch_id = 4, ch_table_id = 1, ch_is_assigned = True, ch_created_at = 4\<rparr>,
      \<lparr>ch_id = 5, ch_table_id = 1, ch_is_assigned = True, ch_created_at = 5\<rparr>]"
  by (simp add: four_top_db_def create_table_def empty_database_def four_top_def Let_def
        numeral_eq_Suc)

lemma four_top_db_next_uuid: "next_uuid four_top_db = 6"
  by (simp add: four_top_db_def create_table_def empty_database_def four_top_def Let_def
        numeral_eq_Suc)

lemma four_top_db_fresh: "chairs_fresh four_top_db"
  by (simp add: chairs_fresh_def four_top_db_chairs four_top_db_next_uuid)

lemma four_top_db_tables:
  "tables four_top_db
   = [\<lparr>t_id = 1, t_table_number = ''T9'', t_min_capacity = 2, t_max_capacity = 4,
        t_is_shared = False, t_location = None\<rparr>]"
  by (simp add: four_top_db_def create_table_def empty_database_def four_top_def Let_def
        numeral_eq_Suc)

text \<open>
  With the rows in the order the relation holds them, the update to two chairs keeps
  the two oldest, and the count is as the lemma above says.
\<close>

lemma oldest_kept_in_insertion_order:
  "\<exists>u db''. update_table (\<lambda>rows. rows) four_top_db 1 (resize 2) = (Inr (Some u), db'')
           \<and> t_max_capacity u = 2
           \<and> map ch_created_at (table_chairs db'' 1) = [2, 3]"
  by (simp add: update_table_def resize_def no_fields_def number_taken_def Let_def
        table_chairs_def four_top_db_chairs four_top_db_tables slice_from_def set_fields_def)

text \<open>
  Claim C9, where the code departs from it. \<open>update_table\<close> reads the chairs of the
  table with a SELECT that has no ORDER BY and deletes the rows after the first M of
  the result, under the comment \<open>keeping the oldest ones\<close>. The table for four has
  chairs created at 2, 3, 4 and 5; when the database returns them newest first, the
  update to a maximum capacity of 2 leaves two chairs, as the count demands, but they
  are the two newest, created at 4 and 5, and the two oldest are deleted.
\<close>

theorem update_table_keeps_newest_chairs:
  "mset (rev (table_chairs four_top_db 1)) = mset (table_chairs four_top_db 1)
   \<and> map ch_created_at (table_chairs four_top_db 1) = [2, 3, 4, 5]
   \<and> map ch_created_at (oldest_chairs 2 (table_chairs four_top_db 1)) = [2, 3]
   \<and> (\<exists>u db''. update_table rev four_top_db 1 (resize 2) = (Inr (Some u), db'')
          \<and> t_max_capacity u = 2
          \<and> map ch_created_at (table_chairs db'' 1) = [4, 5])"
  by (simp add: update_table_def resize_def no_fields_def number_taken_def Let_def
        table_chairs_def four_top_db_chairs four_top_db_tables slice_from_def set_fields_def
        oldest_chairs_def)

section \<open>Properties of the reservation update\<close>

lemma update_reservation_never_returns:
  "fst (update_reservation db reservation_id reservation_data table_ids) \<noteq> Inr (Some v)"
  by (simp add: update_reservation_def get_reservation_by_id_def default_conn_def
        truthy_conn_def Let_def split: sum.splits)

lemma main_update_reservation_fails:
  "main_update_reservation db reservation_id update_data table_ids = (Inl AttributeError, db)"
  by (simp add: main_update_reservation_def get_reservation_by_id_def default_conn_def
        truthy_conn_def Let_def)

text \<open>
  When neither the date nor the start time nor the duration changes, the checks accept
  every list of tables.
\<close>

lemma update_checks_without_time_change:
  assumes "ru_reservation_date update_data = None" and "ru_start_time update_data = None"
      and "ru_duration_minutes update_data = None"
  shows "update_checks db current update_data table_ids = Inr ()"
  using assms by (simp add: update_checks_def)

text \<open>
  In the scenario, an update that only names a table no table has passes the checks.
\<close>

lemma tables_only_update_is_not_checked:
  "update_checks scenario_db current no_change (Some [99]) = Inr ()"
  by (rule update_checks_without_time_change) (simp_all add: no_change_def)

text \<open>
  Claim C7. An update that keeps the table the reservation holds and changes the start
  time is meant to succeed. In the scenario, reservation 10 holds the exclusive table;
  moving it to 20:00 with the same table, the handler raises AttributeError at its first
  statement, the lookup of the current reservation, and nothing is changed.
\<close>

theorem reschedule_keeping_table_fails:
  "map_option rv_tables (fetch_reservation scenario_db 10) = Some [table_a]
   \<and> main_update_reservation scenario_db 10 (move_to (hm 20 0)) (Some [t_id table_a])
      = (Inl AttributeError, scenario_db)"
  by (simp add: main_update_reservation_def get_reservation_by_id_def default_conn_def
        truthy_conn_def Let_def fetch_reservation_def scenario_db_def party_of_three_def
        guest_def table_a_def table_b_def)

section \<open>Properties of the occupancy of shared tables\<close>

lemma verify_requested_tables_Inr:
  "verify_requested_tables available ids = Inr u \<Longrightarrow> set ids \<subseteq> set available"
  by (induction ids) (auto split: if_splits)

lemma booking_checks_Inr:
  assumes "booking_checks db rd tids = Inr u"
  shows "\<exists>rows. get_available_tables db (rd_party_size rd) (rd_reservation_date rd)
                  (rd_start_time rd) (rd_duration_minutes rd) = Inr rows
               \<and> set tids \<subseteq> t_id ` set rows"
proof -
  from assms obtain rows where
    rows: "get_available_tables db (rd_party_size rd) (rd_reservation_date rd)
             (rd_start_time rd) (rd_duration_minutes rd) = Inr rows"
    and v: "verify_requested_tables (map t_id rows) tids = Inr u"
    by (auto simp: booking_checks_def split: sum.splits if_splits)
  from verify_requested_tables_Inr [OF v] rows show ?thesis by auto
qed

lemma truncate_id: "t_id (table_row.truncate a) = t_id a"
  by (simp add: table_row.truncate_def)

lemma available_shared_table_has_room:
  assumes e: "end_time start_time duration_minutes = Inr end_t"
      and rows: "get_available_tables db party_size d start_time duration_minutes = Inr rows"
      and uniq: "assignments_unique db"
      and ids: "distinct (map t_id (tables db))"
      and t: "t \<in> set (tables db)" "t_is_shared t" "t_id t \<in> t_id ` set rows"
  shows "party_size \<le> t_max_capacity t - occupancy db t d start_time end_t"
proof -
  from get_available_tables_set [OF e, of db party_size d] rows have
    img: "table_row.truncate ` set rows
          = {t \<in> set (tables db).
               (t_id t \<notin> set (booked_tables db d start_time end_t) \<or> t_is_shared t)
               \<and> t_min_capacity t \<le> party_size \<and> party_size \<le> t_max_capacity t
               \<and> (\<not> t_is_shared t
                  \<or> party_size \<le> t_max_capacity t
                      - sum_party_size (overlapping_reservations db d start_time end_t) t)}"
    by simp
  from t(3) obtain a where a: "a \<in> set rows" "t_id a = t_id t" by auto
  let ?t' = "table_row.truncate a"
  have "?t' \<in> table_row.truncate ` set rows" using a(1) by blast
  then have in_db: "?t' \<in> set (tables db)"
    and room: "\<not> t_is_shared ?t'
               \<or> party_size \<le> t_max_capacity ?t'
                   - sum_party_size (overlapping_reservations db d start_time end_t) ?t'"
    unfolding img by blast+
  have "t_id ?t' = t_id t" using a(2) by (simp add: truncate_id)
  then have "?t' = t"
    using ids in_db t(1) by (meson distinct_map inj_onD)
  then have "party_size \<le> t_max_capacity t
               - sum_party_size (overlapping_reservations db d start_time end_t) t"
    using room t(2) by simp
  then show ?thesis
    unfolding occupancy_def sum_party_size_shared [OF uniq t(2)] .
qed

lemma occupancy_after_insert:
  assumes rs: "reservations db' = reservations db @ [r]"
      and tas: "table_assignments db' = table_assignments db @ new"
      and other: "\<forall>x \<in> set (reservations db). \<forall>ta \<in> set new. ta_reservation_id ta \<noteq> r_id x"
      and pos: "0 \<le> r_party_size r"
  shows "occupancy db' t d s e \<le> occupancy db t d s e + r_party_size r"
proof -
  let ?C = "\<lambda>db x. assigned_to db x t \<and> r_reservation_date x = d \<and> active_status (r_status x)
                      \<and> overlapping_time_ranges (r_start_time x) (r_end_time x) s e"
  have same: "assigned_to db' x t = assigned_to db x t" if "x \<in> set (reservations db)" for x
    using other that unfolding assigned_to_def tas by (auto simp: list_ex_iff)
  have old: "filter (?C db') (reservations db) = filter (?C db) (reservations db)"
    by (rule filter_cong) (simp_all add: same)
  have "occupancy db' t d s e
        = occupancy db t d s e + (\<Sum>x\<leftarrow>filter (?C db') [r]. r_party_size x)"
    unfolding occupancy_def blocking_reservations_def rs filter_append old by simp
  moreover have "(\<Sum>x\<leftarrow>filter (?C db') [r]. r_party_size x) \<le> r_party_size r"
    using pos by simp
  ultimately show ?thesis by linarith
qed

text \<open>
  Claim C2, as the code has it. When the handler of a booking runs on its own, its
  check and its insert seeing the same database, and the booking succeeds, then for
  every shared table among the requested ones the party sizes of the reservations that
  are neither cancelled nor no_show, are assigned to the table and overlap the booked
  window add up to at most the maximum capacity of the table.
\<close>

theorem booking_keeps_shared_table_within_capacity:
  assumes ok: "main_create_reservation md5 db cd rd tids = (Inr result, db')"
      and fresh: "uuids_fresh db"
      and uniq: "assignments_unique db"
      and ids: "distinct (map t_id (tables db))"
      and pos: "0 < rd_party_size rd"
      and e: "end_time (rd_start_time rd) (rd_duration_minutes rd) = Inr end_t"
      and t: "t \<in> set (tables db')" "t_is_shared t" "t_id t \<in> set tids"
  shows "occupancy db' t (rd_reservation_date rd) (rd_start_time rd) end_t \<le> t_max_capacity t"
proof -
  from ok have checks: "booking_checks db rd tids = Inr ()"
    and created: "create_reservation md5 db cd rd tids = (Inr result, db')"
    by (auto simp: main_create_reservation_def split: sum.splits)
  from booking_checks_Inr [OF checks] obtain rows where
    rows: "get_available_tables db (rd_party_size rd) (rd_reservation_date rd)
             (rd_start_time rd) (rd_duration_minutes rd) = Inr rows"
    and sub: "set tids \<subseteq> t_id ` set rows"
    by blast
  let ?cd = "resolve_contact md5 cd (rd_party_size rd)"
  from create_reservation_customer(1) [OF created] obtain cid db1 where
    goc: "get_or_create_customer db ?cd = Inr (cid, db1)"
    by blast
  note shape = create_reservation_Inr [OF fresh goc created]
  let ?r = "new_reservation_row (next_uuid db1) cid rd"
  let ?new = "map (\<lambda>t. \<lparr>ta_reservation_id = next_uuid db1, ta_table_id = t\<rparr>) tids"
  have t_db: "t \<in> set (tables db)" using t(1) shape(1) by simp
  have room: "rd_party_size rd
              \<le> t_max_capacity t - occupancy db t (rd_reservation_date rd) (rd_start_time rd) end_t"
    using available_shared_table_has_room [OF e rows uniq ids t_db t(2)] t(3) sub by blast
  have le: "next_uuid db \<le> next_uuid db1"
    by (rule get_or_create_customer_facts(6) [OF fresh goc])
  have other: "\<forall>x \<in> set (reservations db). \<forall>ta \<in> set ?new. ta_reservation_id ta \<noteq> r_id x"
    using fresh le by (auto simp: uuids_fresh_def list_all_iff)
  have party: "r_party_size ?r = rd_party_size rd"
    by (simp add: new_reservation_row_def)
  have "occupancy db' t (rd_reservation_date rd) (rd_start_time rd) end_t
        \<le> occupancy db t (rd_reservation_date rd) (rd_start_time rd) end_t + r_party_size ?r"
    using occupancy_after_insert [OF shape(2) shape(3) other] pos party by simp
  then show ?thesis using room party by linarith
qed

lemma scenario_db_fresh: "uuids_fresh scenario_db"
  by (simp add: uuids_fresh_def scenario_db_def guest_def party_of_three_def)

lemma scenario_db_ids: "distinct (map t_id (tables scenario_db))"
  by (simp add: scenario_db_def table_a_def table_b_def)

lemma dinner_end_time:
  "end_time (rd_start_time (dinner n)) (rd_duration_minutes (dinner n)) = Inr (hm 19 30)"
  by (simp add: dinner_def end_time_18_90)

lemma party_of_five_joins_shared_table:
  "\<exists>result db'. main_create_reservation sample_digest scenario_db walk_in (dinner 5) [2]
                   = (Inr result, db')
        \<and> tables db' = [table_a, table_b]"
  by (simp add: main_create_reservation_def booking_checks_def is_valid_reservation_time_def
        get_available_tables_def overlapping_reservations_def booked_tables_def sum_party_size_def
        active_status_def overlapping_time_ranges_def r_end_time_def
        booking_defs sample_digest_def walk_in_def dinner_def scenario_db_def
        table_a_def table_b_def guest_def party_of_three_def
        evening_hours_def end_time_def weekday_def hm_def usec_per_minute_def usec_per_day_def
        datetime_max_ordinal_def table_row.extend_def available_table.fields_def
        less_eq_prod_def less_prod_def Let_def)

theorem booking_keeps_shared_table_within_capacity_witness:
  "uuids_fresh scenario_db \<and> assignments_unique scenario_db
   \<and> distinct (map t_id (tables scenario_db)) \<and> 0 < rd_party_size (dinner 5)
   \<and> end_time (rd_start_time (dinner 5)) (rd_duration_minutes (dinner 5)) = Inr (hm 19 30)
   \<and> t_is_shared table_b \<and> t_id table_b \<in> set [2]
   \<and> (\<exists>result db'. main_create_reservation sample_digest scenario_db walk_in (dinner 5) [2]
                       = (Inr result, db')
          \<and> table_b \<in> set (tables db')
          \<and> occupancy db' table_b (rd_reservation_date (dinner 5)) (rd_start_time (dinner 5))
               (hm 19 30) \<le> t_max_capacity table_b)"
proof -
  obtain result db' where
    ok: "main_create_reservation sample_digest scenario_db walk_in (dinner 5) [2] = (Inr result, db')"
    and tabs: "tables db' = [table_a, table_b]"
    using party_of_five_joins_shared_table by blast
  have pos: "0 < rd_party_size (dinner 5)" by (simp add: dinner_def)
  have mem: "table_b \<in> set (tables db')" using tabs by simp
  have shared: "t_is_shared table_b" by (simp add: table_b_def)
  have req: "t_id table_b \<in> set [2]" by (simp add: table_b_def)
  have "occupancy db' table_b (rd_reservation_date (dinner 5)) (rd_start_time (dinner 5))
          (hm 19 30) \<le> t_max_capacity table_b"
    by (rule booking_keeps_shared_table_within_capacity
              [OF ok scenario_db_fresh scenario_unique scenario_db_ids pos dinner_end_time
                  mem shared req])
  then show ?thesis
    using ok mem pos shared req scenario_db_fresh scenario_unique scenario_db_ids
      dinner_end_time [of 5]
    by blast
qed

lemma both_checks_pass:
  "booking_checks quiet_db (dinner 5) [2] = Inr ()"
  by (simp add: booking_checks_def is_valid_reservation_time_def
        get_available_tables_def overlapping_reservations_def booked_tables_def sum_party_size_def
        dinner_def quiet_db_def scenario_db_def table_a_def table_b_def
        evening_hours_def end_time_def weekday_def hm_def usec_per_minute_def usec_per_day_def
        datetime_max_ordinal_def table_row.extend_def available_table.fields_def
        less_eq_prod_def less_prod_def Let_def)

lemma first_commit:
  "after_first_commit =
     quiet_db\<lparr>customers := [guest,
                  \<lparr>c_id = 100, c_name = cd_name walk_in,
                    c_email = Some ''guest-5d41402a@restaurant.local'', c_phone = None,
                    c_notes = None\<rparr>],
               reservations := [new_reservation_row 101 100 (dinner 5)],
               table_assignments := [\<lparr>ta_reservation_id = 101, ta_table_id = 2\<rparr>],
               next_uuid := 102\<rparr>"
  "isl (fst (create_reservation sample_digest quiet_db walk_in (dinner 5) [2])) = False"
  by (simp_all add: after_first_commit_def booking_defs fetch_reservation_def sample_digest_def
        walk_in_def dinner_def quiet_db_def scenario_db_def
        table_a_def table_b_def guest_def Let_def)

lemma second_commit:
  "reservations after_second_commit
     = [new_reservation_row 101 100 (dinner 5), new_reservation_row 102 100 (dinner 5)]"
  "table_assignments after_second_commit
     = [\<lparr>ta_reservation_id = 101, ta_table_id = 2\<rparr>, \<lparr>ta_reservation_id = 102, ta_table_id = 2\<rparr>]"
  "isl (fst (create_reservation sample_digest after_first_commit walk_in (dinner 5) [2])) = False"
  unfolding after_second_commit_def first_commit(1)
  by (simp_all add: booking_defs fetch_reservation_def sample_digest_def
        walk_in_def dinner_def quiet_db_def scenario_db_def
        table_a_def table_b_def guest_def Let_def)

lemma commit_returns:
  "isl (fst (f :: (error + 'a) \<times> database)) = False \<Longrightarrow> \<exists>v. f = (Inr v, snd f)"
  by (cases f; cases "fst f") auto

text \<open>
  The claim as stated fails when two requests race. Both pass the checks against the
  quiet database, where the shared table for eight is free; the two transactions then
  commit one after the other, both return a reservation, neither raises a conflict,
  and the parties at the table in the window add up to ten.
\<close>

theorem concurrent_bookings_overfill_shared_table:
  "booking_checks quiet_db (dinner 5) [2] = Inr ()
   \<and> (\<exists>v1. create_reservation sample_digest quiet_db walk_in (dinner 5) [2]
              = (Inr v1, after_first_commit))
   \<and> (\<exists>v2. create_reservation sample_digest after_first_commit walk_in (dinner 5) [2]
              = (Inr v2, after_second_commit))
   \<and> t_is_shared table_b \<and> t_max_capacity table_b = 8
   \<and> occupancy after_second_commit table_b 739000 (hm 18 0) (hm 19 30) = 10"
proof -
  have one: "\<exists>v1. create_reservation sample_digest quiet_db walk_in (dinner 5) [2]
              = (Inr v1, after_first_commit)"
    using commit_returns [OF first_commit(2)] by (simp add: after_first_commit_def)
  have two: "\<exists>v2. create_reservation sample_digest after_first_commit walk_in (dinner 5) [2]
              = (Inr v2, after_second_commit)"
    using commit_returns [OF second_commit(3)] by (simp add: after_second_commit_def)
  have tb: "t_is_shared table_b" "t_max_capacity table_b = 8"
    by (simp_all add: table_b_def)
  have occ: "occupancy after_second_commit table_b 739000 (hm 18 0) (hm 19 30) = 10"
    by (simp add: occupancy_def blocking_reservations_def assigned_to_def second_commit
          new_reservation_row_def dinner_def table_b_def active_status_def
          overlapping_time_ranges_def r_end_time_def hm_def usec_per_minute_def usec_per_day_def)
  show ?thesis
    using both_checks_pass one two tb occ by blast
qed

lemma early_dinner:
  "after_early_dinner =
     quiet_db\<lparr>customers := [guest,
                  \<lparr>c_id = 100, c_name = cd_name walk_in,
                    c_email = Some ''guest-5d41402a@restaurant.local'', c_phone = None,
                    c_notes = None\<rparr>],
               reservations := [new_reservation_row 101 100 (dinner 5)],
               table_assignments := [\<lparr>ta_reservation_id = 101, ta_table_id = 2\<rparr>],
               next_uuid := 102\<rparr>"
  "isl (fst (main_create_reservation sample_digest quiet_db walk_in (dinner 5) [2])) = False"
  by (simp_all add: after_early_dinner_def main_create_reservation_def booking_checks_def
        is_valid_reservation_time_def get_available_tables_def overlapping_reservations_def
        booked_tables_def sum_party_size_def
        booking_defs fetch_reservation_def sample_digest_def
        walk_in_def dinner_def quiet_db_def scenario_db_def
        table_a_def table_b_def guest_def
        evening_hours_def end_time_def weekday_def hm_def usec_per_minute_def usec_per_day_def
        datetime_max_ordinal_def table_row.extend_def available_table.fields_def
        less_eq_prod_def less_prod_def Let_def)

lemma late_dinner:
  "reservations after_late_dinner
     = [new_reservation_row 101 100 (dinner 5), new_reservation_row 102 100 (late_dinner 5)]"
  "table_assignments after_late_dinner
     = [\<lparr>ta_reservation_id = 101, ta_table_id = 2\<rparr>, \<lparr>ta_reservation_id = 102, ta_table_id = 2\<rparr>]"
  "isl (fst (main_create_reservation sample_digest after_early_dinner walk_in (late_dinner 5) [2]))
   = False"
  unfolding after_late_dinner_def early_dinner(1)
  by (simp_all add: main_create_reservation_def booking_checks_def
        is_valid_reservation_time_def get_available_tables_def overlapping_reservations_def
        booked_tables_def sum_party_size_def active_status_def overlapping_time_ranges_def
        r_end_time_def late_dinner_def
        booking_defs fetch_reservation_def sample_digest_def
        walk_in_def dinner_def quiet_db_def scenario_db_def
        table_a_def table_b_def guest_def
        evening_hours_def end_time_def weekday_def hm_def usec_per_minute_def usec_per_day_def
        datetime_max_ordinal_def table_row.extend_def available_table.fields_def
        less_eq_prod_def less_prod_def Let_def)

text \<open>
  The bound is for the booked window: two bookings of five handled one after the
  other, back to back, each keep their own window at five, while over a window that
  spans both the party sizes add up to ten at a table for eight.
\<close>

lemma back_to_back_bookings_over_a_spanning_window:
  "(\<exists>v1. main_create_reservation sample_digest quiet_db walk_in (dinner 5) [2]
            = (Inr v1, after_early_dinner))
   \<and> (\<exists>v2. main_create_reservation sample_digest after_early_dinner walk_in (late_dinner 5) [2]
            = (Inr v2, after_late_dinner))
   \<and> t_max_capacity table_b = 8
   \<and> occupancy after_late_dinner table_b 739000 (hm 18 0) (hm 19 30) = 5
   \<and> occupancy after_late_dinner table_b 739000 (hm 19 30) (hm 21 0) = 5
   \<and> occupancy after_late_dinner table_b 739000 (hm 18 0) (hm 21 0) = 10"
proof -
  have one: "\<exists>v1. main_create_reservation sample_digest quiet_db walk_in (dinner 5) [2]
            = (Inr v1, after_early_dinner)"
    using commit_returns [OF early_dinner(2)] by (simp add: after_early_dinner_def)
  have two: "\<exists>v2. main_create_reservation sample_digest after_early_dinner walk_in (late_dinner 5) [2]
            = (Inr v2, after_late_dinner)"
    using commit_returns [OF late_dinner(3)] by (simp add: after_late_dinner_def)
  have occ: "occupancy after_late_dinner table_b 739000 (hm 18 0) (hm 19 30) = 5"
    "occupancy after_late_dinner table_b 739000 (hm 19 30) (hm 21 0) = 5"
    "occupancy after_late_dinner table_b 739000 (hm 18 0) (hm 21 0) = 10"
    by (simp_all add: occupancy_def blocking_reservations_def assigned_to_def late_dinner
          late_dinner_def new_reservation_row_def dinner_def table_b_def active_status_def
          overlapping_time_ranges_def r_end_time_def hm_def usec_per_minute_def usec_per_day_def)
  have "t_max_capacity table_b = 8" by (simp add: table_b_def)
  then show ?thesis using one two occ by blast
qed

section \<open>An exclusive table booked twice across midnight\<close>

lemma supper_booked:
  "after_supper =
     quiet_db\<lparr>customers := [guest,
                  \<lparr>c_id = 100, c_name = cd_name walk_in,
                    c_email = Some ''guest-5d41402a@restaurant.local'', c_phone = None,
                    c_notes = None\<rparr>],
               reservations := [new_reservation_row 101 100 (supper (hm 22 0) 120)],
               table_assignments := [\<lparr>ta_reservation_id = 101, ta_table_id = 1\<rparr>],
               next_uuid := 102\<rparr>"
  "\<exists>view. fst (main_create_reservation sample_digest quiet_db walk_in (supper (hm 22 0) 120) [1])
            = Inr (Some view) \<and> map t_id (rv_tables view) = [1]"
  by (simp_all add: after_supper_def main_create_reservation_def booking_checks_def
        is_valid_reservation_time_def get_available_tables_def overlapping_reservations_def
        booked_tables_def sum_party_size_def booking_defs fetch_reservation_def
        sample_digest_def supper_def walk_in_def quiet_db_def scenario_db_def
        table_a_def table_b_def guest_def
        evening_hours_def end_time_def weekday_def hm_def usec_per_minute_def usec_per_day_def
        datetime_max_ordinal_def table_row.extend_def available_table.fields_def
        less_eq_prod_def less_prod_def Let_def)

lemma supper_stored:
  "map (\<lambda>r. (r_reservation_date r, r_start_time r, r_duration_minutes r, r_status r))
       (competing_reservations after_supper table_a 739000 (hm 22 30) 30)
   = [(739000, hm 22 0, 120, ''pending'')]"
  unfolding supper_booked(1)
  by (simp add: competing_reservations_def half_open_overlap_def new_reservation_row_def
        supper_def table_a_def hm_def usec_per_minute_def)

lemma table_offered_after_supper:
  "\<exists>rows. get_available_tables after_supper 3 739000 (hm 22 30) 30 = Inr rows
          \<and> (\<exists>a \<in> set rows. table_row.truncate a = table_a)"
  unfolding supper_booked(1)
  by (simp add: get_available_tables_def overlapping_reservations_def
        booked_tables_def sum_party_size_def active_status_def overlapping_time_ranges_def
        r_end_time_def new_reservation_row_def supper_def quiet_db_def scenario_db_def
        table_a_def table_b_def end_time_def hm_def usec_per_minute_def usec_per_day_def
        datetime_max_ordinal_def table_row.extend_def table_row.truncate_def
        available_table.fields_def less_eq_prod_def less_prod_def Let_def)

lemma second_supper_booked:
  "\<exists>view. fst (main_create_reservation sample_digest after_supper walk_in (supper (hm 22 30) 30) [1])
            = Inr (Some view) \<and> map t_id (rv_tables view) = [1]"
  unfolding supper_booked(1)
  by (simp add: main_create_reservation_def booking_checks_def
        is_valid_reservation_time_def get_available_tables_def overlapping_reservations_def
        booked_tables_def sum_party_size_def active_status_def overlapping_time_ranges_def
        r_end_time_def booking_defs fetch_reservation_def
        sample_digest_def supper_def walk_in_def quiet_db_def scenario_db_def
        table_a_def table_b_def guest_def
        evening_hours_def end_time_def weekday_def hm_def usec_per_minute_def usec_per_day_def
        datetime_max_ordinal_def table_row.extend_def available_table.fields_def
        less_eq_prod_def less_prod_def Let_def)

text \<open>
  The claim as stated, for every request and every database state, fails for a window
  that does not end within its day. Under opening hours from 17:00 to 23:30 the
  handler accepts a booking of the exclusive table for four from 22:00 for 120
  minutes, a window that ends at midnight. PostgreSQL computes its end time as 00:00,
  and none of the three clauses of the query finds it for a request from 22:30 for 30
  minutes, although the reservation is pending, holds the table on that date, and its
  window from 22:00 to 24:00 overlaps the window from 22:30 to 23:00:
  \<open>get_available_tables\<close> returns the table, and the handler books it a second time.
\<close>

theorem get_available_tables_offers_table_booked_past_midnight:
  "(\<exists>view. main_create_reservation sample_digest quiet_db walk_in (supper (hm 22 0) 120) [1]
             = (Inr (Some view), after_supper)
           \<and> map t_id (rv_tables view) = [1])
   \<and> t_id table_a = 1 \<and> t_is_shared table_a = False
   \<and> map (\<lambda>r. (r_reservation_date r, r_start_time r, r_duration_minutes r, r_status r))
          (competing_reservations after_supper table_a 739000 (hm 22 30) 30)
       = [(739000, hm 22 0, 120, ''pending'')]
   \<and> half_open_overlap (hm 22 0) (hm 22 0 + 120 * usec_per_minute)
                        (hm 22 30) (hm 22 30 + 30 * usec_per_minute)
   \<and> (\<exists>rows. get_available_tables after_supper 3 739000 (hm 22 30) 30 = Inr rows
          \<and> (\<exists>a \<in> set rows. table_row.truncate a = table_a))
   \<and> (\<exists>view db'. main_create_reservation sample_digest after_supper walk_in
                       (supper (hm 22 30) 30) [1]
                     = (Inr (Some view), db')
          \<and> map t_id (rv_tables view) = [1])"
proof -
  have one: "\<exists>view. main_create_reservation sample_digest quiet_db walk_in
                       (supper (hm 22 0) 120) [1]
                     = (Inr (Some view), after_supper)
                   \<and> map t_id (rv_tables view) = [1]"
    using supper_booked(2) unfolding after_supper_def
    by (metis prod.collapse)
  have tab: "t_id table_a = 1" "t_is_shared table_a = False"
    by (simp_all add: table_a_def)
  have win: "half_open_overlap (hm 22 0) (hm 22 0 + 120 * usec_per_minute)
                               (hm 22 30) (hm 22 30 + 30 * usec_per_minute)"
    by (simp add: half_open_overlap_def hm_def usec_per_minute_def)
  have two: "\<exists>view db'. main_create_reservation sample_digest after_supper walk_in
                       (supper (hm 22 30) 30) [1]
                     = (Inr (Some view), db')
          \<and> map t_id (rv_tables view) = [1]"
    using second_supper_booked by (metis prod.collapse)
  show ?thesis
    using one tab supper_stored win table_offered_after_supper two by blast
qed

end
